theory Spec2Isabelle
  imports Complex_Main
begin

section \<open>Values and types (types.ts)\<close>

text \<open>
  The values a \<open>number\<close>-typed slot of this program holds at run time: an integer,
  \<open>NaN\<close> (what adding \<open>undefined\<close> gives), or \<open>undefined\<close> itself (what reading an
  array out of range gives). Cells, coordinates and wall-kick offsets are such values.
  The random numbers of util.ts are fractions and are modelled as exact reals.
\<close>

datatype jsnum = Num int | NaN | Undefined

datatype error = TypeError

type_synonym Matrix = "jsnum list list"

text \<open>\<open>a + b\<close> on numbers: anything that is not a number makes the sum \<open>NaN\<close>.\<close>

fun js_add :: "jsnum \<Rightarrow> jsnum \<Rightarrow> jsnum" where
  "js_add (Num a) (Num b) = Num (a + b)"
| "js_add _ _ = NaN"

text \<open>\<open>a >= b\<close> and \<open>a < b\<close>: false as soon as one side is \<open>NaN\<close> or \<open>undefined\<close>.\<close>

fun js_ge :: "jsnum \<Rightarrow> jsnum \<Rightarrow> bool" where
  "js_ge (Num a) (Num b) = (b \<le> a)"
| "js_ge _ _ = False"

fun js_lt :: "jsnum \<Rightarrow> jsnum \<Rightarrow> bool" where
  "js_lt (Num a) (Num b) = (a < b)"
| "js_lt _ _ = False"

text \<open>\<open>xs[i]\<close> for a natural index: \<open>undefined\<close> out of range.\<close>

definition js_nth :: "jsnum list \<Rightarrow> nat \<Rightarrow> jsnum" where
  "js_nth xs i = (if i < length xs then xs ! i else Undefined)"

text \<open>\<open>xs[v]\<close> for a computed index: \<open>None\<close> stands for \<open>undefined\<close>.\<close>

fun js_index :: "'a list \<Rightarrow> jsnum \<Rightarrow> 'a option" where
  "js_index xs (Num i) = (if 0 \<le> i \<and> nat i < length xs then Some (xs ! nat i) else None)"
| "js_index xs _ = None"

text \<open>\<open>a % b\<close> on integers: the remainder takes the sign of the dividend.\<close>

definition js_rem :: "int \<Rightarrow> int \<Rightarrow> int" where
  "js_rem a b = (if 0 \<le> a then a mod \<bar>b\<bar> else - ((- a) mod \<bar>b\<bar>))"

record Tetromino =
  key :: string
  orientation :: int
  shape :: Matrix
  colour :: string
  x :: jsnum
  y :: jsnum

record State =
  gameEnd :: bool
  gamePause :: bool
  gameRestart :: bool
  grid :: Matrix
  currentTetromino :: Tetromino
  nextTetromino :: Tetromino
  holdTetromino :: "Tetromino option"
  level :: int
  score :: int
  highScore :: int

definition GRID_WIDTH :: nat where "GRID_WIDTH = 10"
definition GRID_HEIGHT :: nat where "GRID_HEIGHT = 20"

abbreviation c0 :: jsnum where "c0 \<equiv> Num 0"
abbreviation c1 :: jsnum where "c1 \<equiv> Num 1"

definition TetrominoShapes :: "string \<Rightarrow> Matrix option" where
  "TetrominoShapes k =
    (if k = ''I'' then Some [[c0, c0, c0, c0], [c1, c1, c1, c1], [c0, c0, c0, c0], [c0, c0, c0, c0]]
     else if k = ''J'' then Some [[c1, c0, c0], [c1, c1, c1], [c0, c0, c0]]
     else if k = ''L'' then Some [[c0, c0, c1], [c1, c1, c1], [c0, c0, c0]]
     else if k = ''O'' then Some [[c1, c1], [c1, c1]]
     else if k = ''S'' then Some [[c0, c1, c1], [c1, c1, c0], [c0, c0, c0]]
     else if k = ''T'' then Some [[c0, c1, c0], [c1, c1, c1], [c0, c0, c0]]
     else if k = ''Z'' then Some [[c1, c1, c0], [c0, c1, c1], [c0, c0, c0]]
     else None)"

text \<open>\<open>Object.keys(TetrominoShapes)\<close>, in insertion order.\<close>

definition tetrominoKeys :: "string list" where
  "tetrominoKeys = [''I'', ''J'', ''L'', ''O'', ''S'', ''T'', ''Z'']"

definition TetrominoColours :: "string \<Rightarrow> string option" where
  "TetrominoColours k =
    (if k = ''I'' then Some ''cyan''
     else if k = ''J'' then Some ''orange''
     else if k = ''L'' then Some ''dodgerblue''
     else if k = ''O'' then Some ''yellow''
     else if k = ''T'' then Some ''magenta''
     else if k = ''S'' then Some ''green''
     else if k = ''Z'' then Some ''red''
     else None)"

definition kickI :: "Matrix list" where
  "kickI =
    [[[Num (-2), Num 0], [Num 1, Num 0], [Num (-2), Num 1], [Num 1, Num (-2)]],
     [[Num (-1), Num 0], [Num 2, Num 0], [Num (-1), Num (-2)], [Num 2, Num 1]],
     [[Num 2, Num 0], [Num (-1), Num 0], [Num 2, Num (-1)], [Num (-1), Num 2]],
     [[Num 1, Num 0], [Num (-2), Num 0], [Num 1, Num 2], [Num (-2), Num (-1)]]]"

text \<open>The table that J, L, S, T and Z each spell out in types.ts, entry for entry.\<close>

definition kickJLSTZ :: "Matrix list" where
  "kickJLSTZ =
    [[[Num (-1), Num 0], [Num (-1), Num (-1)], [Num 0, Num 2], [Num (-1), Num 2]],
     [[Num 1, Num 0], [Num 1, Num 1], [Num 0, Num (-2)], [Num 1, Num (-2)]],
     [[Num 1, Num 0], [Num 1, Num (-1)], [Num 0, Num 2], [Num 1, Num 2]],
     [[Num (-1), Num 0], [Num (-1), Num 1], [Num 0, Num (-2)], [Num (-1), Num (-2)]]]"

text \<open>The entry of O is written \<open>[[[]]]\<close> in types.ts: one orientation, holding one
  candidate, which is the empty array.\<close>

definition WallKickData :: "string \<Rightarrow> Matrix list option" where
  "WallKickData k =
    (if k = ''I'' then Some kickI
     else if k = ''J'' then Some kickJLSTZ
     else if k = ''L'' then Some kickJLSTZ
     else if k = ''O'' then Some [[[]]]
     else if k = ''S'' then Some kickJLSTZ
     else if k = ''T'' then Some kickJLSTZ
     else if k = ''Z'' then Some kickJLSTZ
     else None)"

section \<open>Collision and bounds (state.ts)\<close>

text \<open>\<open>xs.some((a, i) => p(a, i))\<close> where the callback may throw: elements are visited
  in order from index \<open>i\<close>, and the first true result or the first exception ends the scan.\<close>

fun some_e :: "(nat \<Rightarrow> 'a \<Rightarrow> error + bool) \<Rightarrow> nat \<Rightarrow> 'a list \<Rightarrow> error + bool" where
  "some_e p i [] = Inr False"
| "some_e p i (a # as) =
     (case p i a of
        Inl e \<Rightarrow> Inl e
      | Inr b \<Rightarrow> if b then Inr True else some_e p (Suc i) as)"

text \<open>The same scan for a callback that cannot throw.\<close>

fun some_i :: "(nat \<Rightarrow> 'a \<Rightarrow> bool) \<Rightarrow> nat \<Rightarrow> 'a list \<Rightarrow> bool" where
  "some_i p i [] = False"
| "some_i p i (a # as) = (if p i a then True else some_i p (Suc i) as)"

text \<open>\<open>grid[newY][newX] === 1\<close>: a missing row makes the second index throw, a missing
  cell is \<open>undefined\<close> and so not 1.\<close>

definition gridCellIsOne :: "Matrix \<Rightarrow> jsnum \<Rightarrow> jsnum \<Rightarrow> error + bool" where
  "gridCellIsOne g newY newX =
     (case js_index g newY of
        None \<Rightarrow> Inl TypeError
      | Some row \<Rightarrow> Inr (js_index row newX = Some (Num 1)))"

definition isCollision :: "jsnum \<Rightarrow> jsnum \<Rightarrow> Matrix \<Rightarrow> Matrix \<Rightarrow> error + bool" where
  "isCollision px py sh g =
     some_e (\<lambda>yBlock row.
       some_e (\<lambda>xBlock cell.
         if cell = Num 1 then
           (let newX = js_add px (Num (int xBlock));
                newY = js_add py (Num (int yBlock))
            in if js_ge newY (Num (int GRID_HEIGHT)) then Inr True
               else if js_lt newX (Num 0) then Inr True
               else if js_ge newX (Num (int GRID_WIDTH)) then Inr True
               else if js_ge newY (Num 0) then gridCellIsOne g newY newX
               else Inr False)
         else Inr False) 0 row) 0 sh"

definition isOutOfBounds :: "jsnum \<Rightarrow> jsnum \<Rightarrow> Matrix \<Rightarrow> bool" where
  "isOutOfBounds px py sh =
     some_i (\<lambda>yBlock row.
       some_i (\<lambda>xBlock cell.
         if cell = Num 1 then
           (let newX = js_add px (Num (int xBlock));
                newY = js_add py (Num (int yBlock))
            in js_lt newX (Num 0) \<or> js_ge newX (Num (int GRID_WIDTH))
               \<or> js_ge newY (Num (int GRID_HEIGHT)))
         else False) 0 row) 0 sh"

text \<open>\<open>a || b\<close> where \<open>a\<close> may throw and \<open>b\<close> is only evaluated when \<open>a\<close> is false.\<close>

definition isSettled :: "Tetromino \<Rightarrow> Matrix \<Rightarrow> error + bool" where
  "isSettled t g =
     (let yDownByOne = js_add (y t) (Num 1) in
      case isCollision (x t) yDownByOne (shape t) g of
        Inl e \<Rightarrow> Inl e
      | Inr b \<Rightarrow> Inr (b \<or> isOutOfBounds (x t) yDownByOne (shape t)))"

text \<open>\<open>shape[0]\<close> is only read once the piece is known to be settled and above the grid;
  on an empty shape that read is of \<open>undefined\<close> and \<open>.some\<close> on it throws.\<close>

definition isGameEnd :: "State \<Rightarrow> error + bool" where
  "isGameEnd s =
     (case isSettled (currentTetromino s) (grid s) of
        Inl e \<Rightarrow> Inl e
      | Inr settled \<Rightarrow>
          if settled \<and> js_lt (y (currentTetromino s)) (Num 0) then
            (case shape (currentTetromino s) of
               [] \<Rightarrow> Inl TypeError
             | row0 # _ \<Rightarrow> Inr (list_ex (\<lambda>cell. cell = Num 1) row0))
          else Inr False)"

definition moveTetromino :: "State \<Rightarrow> int \<Rightarrow> int \<Rightarrow> error + State" where
  "moveTetromino s xOffset yOffset =
     (let movedTetromino = (currentTetromino s)
            \<lparr> x := js_add (x (currentTetromino s)) (Num xOffset),
              y := js_add (y (currentTetromino s)) (Num yOffset) \<rparr>
      in case isCollision (x movedTetromino) (y movedTetromino) (shape movedTetromino) (grid s) of
           Inl e \<Rightarrow> Inl e
         | Inr b \<Rightarrow>
             if b \<or> isOutOfBounds (x movedTetromino) (y movedTetromino) (shape movedTetromino)
             then Inr s
             else Inr (s \<lparr> currentTetromino := movedTetromino \<rparr>))"

section \<open>Rotation (state.ts)\<close>

text \<open>\<open>matrix[0].map((col, i) => matrix.map(row => row[i]))\<close>, then every row reversed.
  An empty matrix has no \<open>matrix[0]\<close> and the call throws; a row shorter than the first
  one contributes \<open>undefined\<close>.\<close>

definition rotateMatrix :: "Matrix \<Rightarrow> error + Matrix" where
  "rotateMatrix matrix =
     (case matrix of
        [] \<Rightarrow> Inl TypeError
      | row0 # _ \<Rightarrow>
          (let transposedMatrix = map (\<lambda>i. map (\<lambda>row. js_nth row i) matrix) [0 ..< length row0]
           in Inr (map rev transposedMatrix)))"

section \<open>Row clearing (state.ts)\<close>

definition rowFull :: "jsnum list \<Rightarrow> bool" where
  "rowFull row = list_all (\<lambda>cell. cell = Num 1) row"

definition clearCompletedRows :: "Matrix \<Rightarrow> Matrix \<times> nat" where
  "clearCompletedRows g =
     (let fullRows = filter rowFull g in
      if length fullRows = 0 then (g, 0)
      else
        (let numFullRows = length fullRows;
             clearedGrid = replicate numFullRows (replicate GRID_WIDTH (Num 0))
                           @ filter (\<lambda>row. \<not> rowFull row) g
         in (clearedGrid, numFullRows)))"

section \<open>Wall kicks and rotation (state.ts)\<close>

text \<open>\<open>xs.find(p)\<close> where the callback may throw.\<close>

fun find_e :: "('a \<Rightarrow> error + bool) \<Rightarrow> 'a list \<Rightarrow> error + 'a option" where
  "find_e p [] = Inr None"
| "find_e p (a # as) =
     (case p a of
        Inl e \<Rightarrow> Inl e
      | Inr b \<Rightarrow> if b then Inr (Some a) else find_e p as)"

text \<open>The rotated piece moved by a candidate \<open>test\<close>: \<open>x + test[0]\<close>, \<open>y + test[1]\<close>.\<close>

definition kickBy :: "Tetromino \<Rightarrow> jsnum list \<Rightarrow> Tetromino" where
  "kickBy rotatedTetromino test =
     rotatedTetromino \<lparr> x := js_add (x rotatedTetromino) (js_nth test 0),
                        y := js_add (y rotatedTetromino) (js_nth test 1) \<rparr>"

text \<open>A key without a table entry, or an orientation without a candidate list, makes the
  next property read throw. The candidate found is an array and so always truthy; only
  \<open>undefined\<close> (nothing found) skips the \<open>if\<close>.\<close>

definition attemptWallKick :: "Tetromino \<Rightarrow> Tetromino \<Rightarrow> Matrix \<Rightarrow> error + Tetromino option" where
  "attemptWallKick currentTet rotatedTetromino g =
     (case WallKickData (key currentTet) of
        None \<Rightarrow> Inl TypeError
      | Some wallKickDataTetromino \<Rightarrow>
          (case js_index wallKickDataTetromino (Num (orientation currentTet)) of
             None \<Rightarrow> Inl TypeError
           | Some wallKickTests \<Rightarrow>
               (case find_e (\<lambda>test.
                       let adjustedTetromino = kickBy rotatedTetromino test in
                       case isCollision (x adjustedTetromino) (y adjustedTetromino)
                              (shape adjustedTetromino) g of
                         Inl e \<Rightarrow> Inl e
                       | Inr b \<Rightarrow> Inr (\<not> b \<and> \<not> isOutOfBounds (x adjustedTetromino)
                                     (y adjustedTetromino) (shape adjustedTetromino)))
                     wallKickTests of
                  Inl e \<Rightarrow> Inl e
                | Inr None \<Rightarrow> Inr None
                | Inr (Some validWallKick) \<Rightarrow> Inr (Some (kickBy rotatedTetromino validWallKick)))))"

definition rotateTetromino :: "State \<Rightarrow> error + State" where
  "rotateTetromino s =
     (case rotateMatrix (shape (currentTetromino s)) of
        Inl e \<Rightarrow> Inl e
      | Inr rotatedShape \<Rightarrow>
          (let rotatedTetromino = (currentTetromino s)
                 \<lparr> orientation := js_rem (orientation (currentTetromino s) + 1) 4,
                   shape := rotatedShape \<rparr>
           in case isCollision (x rotatedTetromino) (y rotatedTetromino)
                     (shape rotatedTetromino) (grid s) of
                Inl e \<Rightarrow> Inl e
              | Inr b \<Rightarrow>
                  if \<not> b \<and> \<not> isOutOfBounds (x rotatedTetromino) (y rotatedTetromino)
                                (shape rotatedTetromino)
                  then Inr (s \<lparr> currentTetromino := rotatedTetromino \<rparr>)
                  else
                    (case attemptWallKick (currentTetromino s) rotatedTetromino (grid s) of
                       Inl e \<Rightarrow> Inl e
                     | Inr (Some wallKickedTetromino) \<Rightarrow>
                         Inr (s \<lparr> currentTetromino := wallKickedTetromino \<rparr>)
                     | Inr None \<Rightarrow> Inr s)))"

section \<open>Inputs and movement (types.ts, state.ts)\<close>

datatype Key = ArrowDown | ArrowLeft | ArrowRight | ArrowUp | Space | KeyC

definition updateState :: "State \<Rightarrow> Key \<Rightarrow> error + State" where
  "updateState s k =
     (if k = ArrowLeft then moveTetromino s (-1) 0
      else if k = ArrowRight then moveTetromino s 1 0
      else if k = ArrowDown then moveTetromino s 0 1
      else if k = ArrowUp then rotateTetromino s
      else Inr s)"

text \<open>The recursion of \<open>dropTetromino\<close> has no bound of its own: \<open>None\<close> is a descent that
  never returns.\<close>

partial_function (option) dropOneStepRecursive :: "State \<Rightarrow> (error + State) option" where
  "dropOneStepRecursive currentState =
     (case isSettled (currentTetromino currentState) (grid currentState) of
        Inl e \<Rightarrow> Some (Inl e)
      | Inr settled \<Rightarrow>
          if settled then Some (Inr currentState)
          else
            (case moveTetromino currentState 0 1 of
               Inl e \<Rightarrow> Some (Inl e)
             | Inr nextState \<Rightarrow> dropOneStepRecursive nextState))"

definition dropTetromino :: "State \<Rightarrow> (error + State) option" where
  "dropTetromino s = dropOneStepRecursive s"

text \<open>The equation of the recursion, with which a descent is evaluated on a given state.\<close>

declare dropOneStepRecursive.simps [code]

section \<open>Random pieces (util.ts)\<close>

definition RNG_m :: real where "RNG_m = 2147483647"
definition RNG_a :: real where "RNG_a = 1103515245"
definition RNG_c :: real where "RNG_c = 12345"

text \<open>\<open>a % b\<close> on fractions, computed exactly: the remainder takes the sign of the dividend.\<close>

definition js_fmod :: "real \<Rightarrow> real \<Rightarrow> real" where
  "js_fmod a b =
     (if 0 \<le> a then a - \<bar>b\<bar> * of_int \<lfloor>a / \<bar>b\<bar>\<rfloor>
      else - ((- a) - \<bar>b\<bar> * of_int \<lfloor>(- a) / \<bar>b\<bar>\<rfloor>))"

definition hash :: "real \<Rightarrow> real" where
  "hash seed = js_fmod (RNG_a * seed + RNG_c) RNG_m"

definition scale :: "real \<Rightarrow> real" where
  "scale h = h / (RNG_m - 1)"

definition INITIAL_ORIENTATION :: int where "INITIAL_ORIENTATION = 0"
definition INITIAL_LEVEL :: int where "INITIAL_LEVEL = 0"
definition INITIAL_SCORE :: int where "INITIAL_SCORE = 0"

text \<open>\<open>Math.floor(GRID_WIDTH / 2) - Math.floor(shape[0].length / 2)\<close>; the read of
  \<open>shape[0]\<close> throws when the key has no shape.\<close>

definition spawnX :: "Matrix \<Rightarrow> error + jsnum" where
  "spawnX sh =
     (case sh of
        [] \<Rightarrow> Inl TypeError
      | row0 # _ \<Rightarrow> Inr (Num (int (GRID_WIDTH div 2) - int (length row0 div 2))))"

text \<open>An index outside the seven keys gives the key \<open>undefined\<close>, which has no shape, and
  the computation of \<open>x\<close> throws. Every key of \<open>TetrominoShapes\<close> has a colour.\<close>

definition getRandomTetromino :: "real \<Rightarrow> error + Tetromino" where
  "getRandomTetromino rng =
     (let randomIndex = \<lfloor>rng * real (length tetrominoKeys)\<rfloor> in
      case js_index tetrominoKeys (Num randomIndex) of
        None \<Rightarrow> Inl TypeError
      | Some randomTetrominoKey \<Rightarrow>
          (case (TetrominoShapes randomTetrominoKey, TetrominoColours randomTetrominoKey) of
             (Some sh, Some col) \<Rightarrow>
               (case spawnX sh of
                  Inl e \<Rightarrow> Inl e
                | Inr sx \<Rightarrow>
                    Inr \<lparr> key = randomTetrominoKey, orientation = INITIAL_ORIENTATION,
                          shape = sh, colour = col, x = sx, y = Num (-2) \<rparr>)
           | _ \<Rightarrow> Inl TypeError))"

definition INITIAL_STATE :: "real \<Rightarrow> error + State" where
  "INITIAL_STATE seed =
     (case getRandomTetromino seed of
        Inl e \<Rightarrow> Inl e
      | Inr cur \<Rightarrow>
          (case getRandomTetromino (scale (hash (seed * 314159))) of
             Inl e \<Rightarrow> Inl e
           | Inr nxt \<Rightarrow>
               Inr \<lparr> gameEnd = False, gamePause = False, gameRestart = False,
                     grid = replicate GRID_HEIGHT (replicate GRID_WIDTH (Num 0)),
                     currentTetromino = cur, nextTetromino = nxt, holdTetromino = None,
                     level = INITIAL_LEVEL, score = INITIAL_SCORE, highScore = INITIAL_SCORE \<rparr>))"

section \<open>Hold (state.ts)\<close>

definition resetPosition :: "Tetromino \<Rightarrow> error + Tetromino" where
  "resetPosition tetromino =
     (case TetrominoShapes (key tetromino) of
        None \<Rightarrow> Inl TypeError
      | Some sh \<Rightarrow>
          (case spawnX sh of
             Inl e \<Rightarrow> Inl e
           | Inr sx \<Rightarrow>
               Inr (tetromino \<lparr> orientation := INITIAL_ORIENTATION, shape := sh,
                                x := sx, y := Num (-2) \<rparr>)))"

definition holdState :: "State \<Rightarrow> real \<Rightarrow> error + State" where
  "holdState s tickRng =
     (case holdTetromino s of
        None \<Rightarrow>
          (case getRandomTetromino tickRng of
             Inl e \<Rightarrow> Inl e
           | Inr drawn \<Rightarrow>
               (case resetPosition (currentTetromino s) of
                  Inl e \<Rightarrow> Inl e
                | Inr held \<Rightarrow>
                    Inr (s \<lparr> currentTetromino := nextTetromino s, nextTetromino := drawn,
                             holdTetromino := Some held, gameRestart := False \<rparr>)))
      | Some h \<Rightarrow>
          (case resetPosition h of
             Inl e \<Rightarrow> Inl e
           | Inr cur \<Rightarrow>
               (case resetPosition (currentTetromino s) of
                  Inl e \<Rightarrow> Inl e
                | Inr held \<Rightarrow>
                    Inr (s \<lparr> currentTetromino := cur, holdTetromino := Some held,
                             gameRestart := False \<rparr>))))"

section \<open>Merging and the tick (state.ts)\<close>

text \<open>\<open>a - b\<close> on numbers.\<close>

fun js_sub :: "jsnum \<Rightarrow> jsnum \<Rightarrow> jsnum" where
  "js_sub (Num a) (Num b) = Num (a - b)"
| "js_sub _ _ = NaN"

text \<open>\<open>shape[yTetromino][xTetromino]\<close>. It is read only under \<open>isOverlap\<close>, which puts
  \<open>yTetromino\<close> among the rows of the shape (lemma \<open>overlap_row_exists\<close> below), so only
  the cell can be missing, in a row shorter than the first one.\<close>

definition shapeCell :: "Matrix \<Rightarrow> jsnum \<Rightarrow> jsnum \<Rightarrow> jsnum" where
  "shapeCell sh yTetromino xTetromino =
     (case js_index sh yTetromino of
        None \<Rightarrow> Undefined
      | Some row \<Rightarrow> (case js_index row xTetromino of None \<Rightarrow> Undefined | Some v \<Rightarrow> v))"

definition isOverlap :: "Tetromino \<Rightarrow> nat \<Rightarrow> nat \<Rightarrow> nat \<Rightarrow> nat \<Rightarrow> bool" where
  "isOverlap t yLength xLength yIndex xIndex =
     (js_ge (Num (int yIndex)) (y t)
      \<and> js_lt (Num (int yIndex)) (js_add (y t) (Num (int yLength)))
      \<and> js_ge (Num (int xIndex)) (x t)
      \<and> js_lt (Num (int xIndex)) (js_add (x t) (Num (int xLength))))"

text \<open>\<open>shape[0].length\<close> throws on an empty shape, before any row is mapped.\<close>

definition updateGrid :: "Matrix \<Rightarrow> Tetromino \<Rightarrow> error + Matrix" where
  "updateGrid g t =
     (case shape t of
        [] \<Rightarrow> Inl TypeError
      | row0 # _ \<Rightarrow>
          (let yLength = length (shape t); xLength = length row0 in
           Inr (map (\<lambda>(yIndex, row).
                  map (\<lambda>(xIndex, cell).
                    if isOverlap t yLength xLength yIndex xIndex then
                      js_add cell (shapeCell (shape t) (js_sub (Num (int yIndex)) (y t))
                                                       (js_sub (Num (int xIndex)) (x t)))
                    else cell) (enumerate 0 row)) (enumerate 0 g))))"

definition tick :: "State \<Rightarrow> real \<Rightarrow> error + State" where
  "tick s rng =
     (case isGameEnd s of
        Inl e \<Rightarrow> Inl e
      | Inr ended \<Rightarrow>
          if ended then Inr (s \<lparr> gameEnd := True \<rparr>)
          else
            (case isSettled (currentTetromino s) (grid s) of
               Inl e \<Rightarrow> Inl e
             | Inr settled \<Rightarrow>
                 if settled then
                   (case updateGrid (grid s) (currentTetromino s) of
                      Inl e \<Rightarrow> Inl e
                    | Inr updatedGrid \<Rightarrow>
                        (let clearedGrid = fst (clearCompletedRows updatedGrid);
                             numFullRows = snd (clearCompletedRows updatedGrid);
                             newScore = score s + int numFullRows * 100
                         in case getRandomTetromino rng of
                              Inl e \<Rightarrow> Inl e
                            | Inr drawn \<Rightarrow>
                                Inr (s \<lparr> grid := clearedGrid,
                                         currentTetromino := nextTetromino s,
                                         nextTetromino := drawn,
                                         level := \<lfloor>real_of_int newScore / 1000\<rfloor>,
                                         score := newScore,
                                         highScore := (if newScore > highScore s then newScore
                                                       else highScore s) \<rparr>)))
                 else if gamePause s \<or> gameEnd s then Inr s
                 else
                   (case moveTetromino s 0 1 of
                      Inl e \<Rightarrow> Inl e
                    | Inr moved \<Rightarrow> Inr (moved \<lparr> gameRestart := False \<rparr>))))"

definition hardDrop :: "State \<Rightarrow> real \<Rightarrow> (error + State) option" where
  "hardDrop s rng =
     (case dropTetromino s of
        None \<Rightarrow> None
      | Some (Inl e) \<Rightarrow> Some (Inl e)
      | Some (Inr dropped) \<Rightarrow> Some (tick dropped rng))"

section \<open>The reducer (main.ts)\<close>

text \<open>
  The inputs that the merged stream delivers: a random number on each tick, a key press, a
  click on one of the two buttons, and the two zipped pairs of a random number with a
  press of Space (hard drop) or of KeyC (hold).
\<close>

datatype Button = PauseButton | RestartButton

datatype Input =
    TickRng real
  | KeyboardEvent Key
  | MouseEvent Button
  | DropRng real
  | HoldRng real

definition isMovement :: "State \<Rightarrow> Input \<Rightarrow> bool" where
  "isMovement s inp = (case inp of KeyboardEvent _ \<Rightarrow> \<not> gameEnd s \<and> \<not> gamePause s | _ \<Rightarrow> False)"

definition isPause :: "Input \<Rightarrow> Button \<Rightarrow> bool" where
  "isPause inp button = (case inp of MouseEvent target \<Rightarrow> target = button | _ \<Rightarrow> False)"

definition isRestart :: "Input \<Rightarrow> Button \<Rightarrow> bool" where
  "isRestart inp button = (case inp of MouseEvent target \<Rightarrow> target = button | _ \<Rightarrow> False)"

definition isHardDrop :: "State \<Rightarrow> Input \<Rightarrow> bool" where
  "isHardDrop s inp = (case inp of DropRng _ \<Rightarrow> \<not> gameEnd s \<and> \<not> gamePause s | _ \<Rightarrow> False)"

definition isHold :: "State \<Rightarrow> Input \<Rightarrow> bool" where
  "isHold s inp = (case inp of HoldRng _ \<Rightarrow> \<not> gameEnd s \<and> \<not> gamePause s | _ \<Rightarrow> False)"

text \<open>
  \<open>handleInput\<close> closes over the constant \<open>INITIAL_STATE\<close>, here the argument \<open>ini\<close>.
  The last branch treats its input as the tick's random number; with the game running
  only a tick gets there, since a key, a drop, a hold and a click were taken above.
\<close>

definition handleInput :: "State \<Rightarrow> State \<Rightarrow> Input \<Rightarrow> (error + State) option" where
  "handleInput ini s currInput =
     (if isMovement s currInput then
        (case currInput of
           KeyboardEvent code \<Rightarrow>
             (case updateState s code of
                Inl e \<Rightarrow> Some (Inl e)
              | Inr moved \<Rightarrow> Some (Inr (moved \<lparr> gameRestart := False \<rparr>)))
         | _ \<Rightarrow> Some (Inr s))
      else if isPause currInput PauseButton then
        Some (Inr (s \<lparr> gamePause := \<not> gamePause s, gameRestart := False \<rparr>))
      else if isRestart currInput RestartButton then
        Some (Inr (ini \<lparr> gameRestart := True, highScore := highScore s \<rparr>))
      else if isHardDrop s currInput then
        (case currInput of DropRng tickRng \<Rightarrow> hardDrop s tickRng | _ \<Rightarrow> Some (Inr s))
      else if isHold s currInput then
        (case currInput of
           HoldRng tickRng \<Rightarrow>
             (case holdState s tickRng of
                Inl e \<Rightarrow> Some (Inl e)
              | Inr held \<Rightarrow> Some (Inr (held \<lparr> gameRestart := False \<rparr>)))
         | _ \<Rightarrow> Some (Inr s))
      else if gameEnd s \<or> gamePause s then Some (Inr s)
      else (case currInput of TickRng rng \<Rightarrow> Some (tick s rng) | _ \<Rightarrow> Some (Inr s)))"

text \<open>The states of a run: the initial state of a seed for which it can be built, and
  every state the reducer returns from there.\<close>

inductive reachable :: "real \<Rightarrow> State \<Rightarrow> bool" for seed :: real where
  reachable_init: "INITIAL_STATE seed = Inr ini \<Longrightarrow> reachable seed ini"
| reachable_step: "reachable seed s \<Longrightarrow> INITIAL_STATE seed = Inr ini
     \<Longrightarrow> handleInput ini s inp = Some (Inr s') \<Longrightarrow> reachable seed s'"

section \<open>Notions used in the statements\<close>

text \<open>Sequencing of two computations that may throw.\<close>

definition then_e :: "error + 'a \<Rightarrow> ('a \<Rightarrow> error + 'b) \<Rightarrow> error + 'b" where
  "then_e r f = (case r of Inl e \<Rightarrow> Inl e | Inr v \<Rightarrow> f v)"

text \<open>
  The test \<open>isCollision\<close> makes on one cell, and on a whole shape, read as a truth value:
  an occupied cell at or below the floor, left or right of the grid, or on an occupied
  grid cell of a row at or below the top.
\<close>

definition cellHits :: "jsnum \<Rightarrow> jsnum \<Rightarrow> Matrix \<Rightarrow> nat \<Rightarrow> nat \<Rightarrow> jsnum \<Rightarrow> bool" where
  "cellHits px py g yBlock xBlock cell =
     (cell = Num 1 \<and>
      (let newX = js_add px (Num (int xBlock));
           newY = js_add py (Num (int yBlock))
       in js_ge newY (Num (int GRID_HEIGHT)) \<or> js_lt newX (Num 0)
          \<or> js_ge newX (Num (int GRID_WIDTH))
          \<or> (js_ge newY (Num 0) \<and>
              (case js_index g newY of
                 None \<Rightarrow> False
               | Some row \<Rightarrow> js_index row newX = Some (Num 1)))))"

definition collides :: "jsnum \<Rightarrow> jsnum \<Rightarrow> Matrix \<Rightarrow> Matrix \<Rightarrow> bool" where
  "collides px py sh g =
     some_i (\<lambda>yBlock row. some_i (\<lambda>xBlock cell. cellHits px py g yBlock xBlock cell) 0 row) 0 sh"

text \<open>A legal placement: \<open>isCollision\<close> returns false and so does \<open>isOutOfBounds\<close>.\<close>

definition legal :: "Tetromino \<Rightarrow> Matrix \<Rightarrow> bool" where
  "legal t g = (isCollision (x t) (y t) (shape t) g = Inr False
                \<and> \<not> isOutOfBounds (x t) (y t) (shape t))"

text \<open>The candidate list of the wall-kick table for a shape kind and an orientation, if
  the table has one.\<close>

definition kickTests :: "string \<Rightarrow> int \<Rightarrow> Matrix option" where
  "kickTests k ori =
     (case WallKickData k of None \<Rightarrow> None | Some table \<Rightarrow> js_index table (Num ori))"



text \<open>A square matrix: each row as long as the matrix has rows.\<close>

definition isSquare :: "Matrix \<Rightarrow> bool" where
  "isSquare m = list_all (\<lambda>row. length row = length m) m"

definition rotateFourTimes :: "Matrix \<Rightarrow> error + Matrix" where
  "rotateFourTimes m =
     then_e (then_e (then_e (rotateMatrix m) rotateMatrix) rotateMatrix) rotateMatrix"

text \<open>Two Hold actions in a row.\<close>

definition holdTwice :: "State \<Rightarrow> real \<Rightarrow> real \<Rightarrow> error + State" where
  "holdTwice s r1 r2 = then_e (holdState s r1) (\<lambda>s1. holdState s1 r2)"

text \<open>The invariant of a run that the restart relies on.\<close>

definition scoresOrdered :: "State \<Rightarrow> bool" where
  "scoresOrdered s = (score s \<le> highScore s \<and> 0 \<le> highScore s)"

text \<open>The reducer folded over a list of inputs from a state, as \<open>scan\<close> folds it over the
  merged stream in main.ts; the fold stops at the first input on which the reducer throws
  or does not return.\<close>

fun run :: "State \<Rightarrow> State \<Rightarrow> Input list \<Rightarrow> (error + State) option" where
  "run ini s [] = Some (Inr s)"
| "run ini s (inp # inps) =
     (case handleInput ini s inp of
        Some (Inr s') \<Rightarrow> run ini s' inps
      | other \<Rightarrow> other)"

text \<open>A wall-kick candidate as the table writes it: the array of a horizontal and a vertical
  offset.\<close>

definition offsetPair :: "int \<times> int \<Rightarrow> jsnum list" where
  "offsetPair p = [Num (fst p), Num (snd p)]"

text \<open>A piece as it is drawn, or as it comes out of hold: \<open>resetPosition\<close> leaves it as it
  is.\<close>

definition spawned :: "Tetromino \<Rightarrow> bool" where
  "spawned t = (resetPosition t = Inr t)"

text \<open>
  What holds of every state of a run (lemma \<open>reachable_wf\<close> below): the grid has its
  \<open>GRID_HEIGHT\<close> rows; the active piece is anchored at integers, at most five rows above
  the grid, and is placed legally; it is of one of the seven kinds and has a square shape
  of at most four rows, the O piece its one shape; its orientation is among 0, 1, 2, 3;
  the next piece is as it was drawn.
\<close>

definition wellFormed :: "State \<Rightarrow> bool" where
  "wellFormed s =
     (length (grid s) = GRID_HEIGHT
      \<and> (\<exists>xi yi. x (currentTetromino s) = Num xi \<and> y (currentTetromino s) = Num yi \<and> - 5 \<le> yi)
      \<and> legal (currentTetromino s) (grid s)
      \<and> key (currentTetromino s) \<in> set tetrominoKeys
      \<and> shape (currentTetromino s) \<noteq> []
      \<and> isSquare (shape (currentTetromino s))
      \<and> length (shape (currentTetromino s)) \<le> 4
      \<and> (key (currentTetromino s) = ''O'' \<longrightarrow> shape (currentTetromino s) = [[c1, c1], [c1, c1]])
      \<and> 0 \<le> orientation (currentTetromino s) \<and> orientation (currentTetromino s) < 4
      \<and> spawned (nextTetromino s))"

text \<open>A candidate list made of pairs of integers that lift the piece by two rows at most,
  and in which a candidate that lifts the piece is found only once the candidate with the
  same horizontal offset and no vertical one has failed, unless its horizontal offset
  is 0.\<close>

definition orderedKicks :: "Matrix \<Rightarrow> bool" where
  "orderedKicks tests =
     (\<forall>P test. find P tests = Some test \<longrightarrow>
        (\<exists>dx dy. test = [Num dx, Num dy] \<and> - 2 \<le> dy
           \<and> (dy < 0 \<longrightarrow> dx = 0 \<or> \<not> P [Num dx, Num 0])))"

section \<open>Example inputs\<close>

definition emptyRow :: "jsnum list" where
  "emptyRow = replicate GRID_WIDTH (Num 0)"

definition emptyGrid :: Matrix where
  "emptyGrid = replicate GRID_HEIGHT emptyRow"

definition pieceI :: Tetromino where
  "pieceI = \<lparr> key = ''I'', orientation = 0,
      shape = [[c0, c0, c0, c0], [c1, c1, c1, c1], [c0, c0, c0, c0], [c0, c0, c0, c0]],
      colour = ''cyan'', x = Num 3, y = Num (-2) \<rparr>"

definition pieceO :: Tetromino where
  "pieceO = \<lparr> key = ''O'', orientation = 0, shape = [[c1, c1], [c1, c1]],
      colour = ''yellow'', x = Num 4, y = Num (-2) \<rparr>"

definition pieceT :: Tetromino where
  "pieceT = \<lparr> key = ''T'', orientation = 0,
      shape = [[c0, c1, c0], [c1, c1, c1], [c0, c0, c0]],
      colour = ''magenta'', x = Num 4, y = Num (-2) \<rparr>"

definition stateWith :: "Matrix \<Rightarrow> Tetromino \<Rightarrow> Tetromino \<Rightarrow> State" where
  "stateWith g cur nxt =
     \<lparr> gameEnd = False, gamePause = False, gameRestart = False, grid = g,
       currentTetromino = cur, nextTetromino = nxt, holdTetromino = None,
       level = 0, score = 0, highScore = 0 \<rparr>"




text \<open>A T piece that has fallen seven rows.\<close>

definition movedState :: State where
  "movedState = stateWith emptyGrid (pieceT \<lparr> y := Num 5 \<rparr>) pieceO"

text \<open>The same, with an I piece in hold.\<close>

definition movedStateHolding :: State where
  "movedStateHolding = movedState \<lparr> holdTetromino := Some pieceI \<rparr>"

text \<open>An O piece whose right column is outside the grid.\<close>

definition wallOState :: State where
  "wallOState = stateWith emptyGrid (pieceO \<lparr> x := Num 9, y := Num 0 \<rparr>) pieceT"

text \<open>A seed whose hash lies between \<open>m - 1\<close> and \<open>m\<close>.\<close>

definition badSeed :: real where
  "badSeed = 1946027761 / 1000000000"

text \<open>The initial state for the seed 0, and that state after a click on Pause.\<close>

definition seedZeroState :: State where
  "seedZeroState = stateWith emptyGrid pieceI pieceI"

definition seedZeroPaused :: State where
  "seedZeroPaused = seedZeroState \<lparr> gamePause := True \<rparr>"

text \<open>An O piece resting in the gap of an otherwise full bottom row.\<close>

definition gapGrid :: Matrix where
  "gapGrid = replicate 19 emptyRow @ [[c1, c1, c1, c1, c0, c0, c1, c1, c1, c1]]"

definition settleState :: State where
  "settleState = stateWith gapGrid (pieceO \<lparr> y := Num 18 \<rparr>) pieceT"

definition settledGrid :: Matrix where
  "settledGrid = replicate 19 emptyRow @ [[c0, c0, c0, c0, c1, c1, c0, c0, c0, c0]]"

text \<open>The I piece of the initial state for the seed 0 after twenty ticks: it lies on the
  floor.\<close>

definition restingIState :: State where
  "restingIState = stateWith emptyGrid (pieceI \<lparr> y := Num 18 \<rparr>) pieceI"

text \<open>A state whose active piece has a shape without rows.\<close>

definition shapelessState :: State where
  "shapelessState = stateWith emptyGrid (pieceT \<lparr> shape := [] \<rparr>) pieceO"

text \<open>The initial state for the seed 1/2 has the O piece; four moves to the right and a
  rotation put it in the two rightmost columns, at orientation 1.\<close>

definition cornerORun :: "Input list" where
  "cornerORun = [KeyboardEvent ArrowRight, KeyboardEvent ArrowRight, KeyboardEvent ArrowRight,
     KeyboardEvent ArrowRight, KeyboardEvent ArrowUp]"

definition cornerOState :: State where
  "cornerOState = stateWith emptyGrid (pieceO \<lparr> orientation := 1, x := Num 8 \<rparr>) pieceO"

text \<open>
  A run from the initial state for the seed 0 that fills column 1 of the grid: five
  times over, the I piece is turned upright, moved four columns to the left and dropped.
  The random numbers of the five drops draw the pieces I, I, I, T and I, so that the
  sixth piece is a T and an I follows it.
\<close>

definition stackColumn :: "real \<Rightarrow> Input list" where
  "stackColumn r = [KeyboardEvent ArrowUp, KeyboardEvent ArrowLeft, KeyboardEvent ArrowLeft,
     KeyboardEvent ArrowLeft, KeyboardEvent ArrowLeft, DropRng r]"

definition fullColumnRun :: "Input list" where
  "fullColumnRun = stackColumn 0 @ stackColumn 0 @ stackColumn 0 @ stackColumn (3 / 4)
     @ stackColumn 0"

definition columnGrid :: Matrix where
  "columnGrid = replicate GRID_HEIGHT [c0, c1, c0, c0, c0, c0, c0, c0, c0, c0]"

text \<open>The T piece is then moved four columns to the left and rotated: the turned piece
  would stand in the full column, and the first candidate, \<open>(-1, 0)\<close>, puts it against the
  left wall.\<close>

definition wedgeRun :: "Input list" where
  "wedgeRun = fullColumnRun @ [KeyboardEvent ArrowLeft, KeyboardEvent ArrowLeft,
     KeyboardEvent ArrowLeft, KeyboardEvent ArrowLeft, KeyboardEvent ArrowUp]"

definition wedgedT :: Tetromino where
  "wedgedT = \<lparr> key = ''T'', orientation = 1,
      shape = [[c0, c1, c0], [c0, c1, c1], [c0, c1, c0]],
      colour = ''magenta'', x = Num (-1), y = Num (-2) \<rparr>"

definition wedgedState :: State where
  "wedgedState = stateWith columnGrid wedgedT pieceI"

text \<open>Rotated once more there, the piece is lifted to row -4 by the fourth candidate,
  \<open>(1, -2)\<close>; two moves to the right take it clear of the full column.\<close>

definition liftedT :: Tetromino where
  "liftedT = \<lparr> key = ''T'', orientation = 2,
      shape = [[c0, c0, c0], [c1, c1, c1], [c0, c1, c0]],
      colour = ''magenta'', x = Num 0, y = Num (-4) \<rparr>"

definition liftRun :: "Input list" where
  "liftRun = wedgeRun @ [KeyboardEvent ArrowUp, KeyboardEvent ArrowRight, KeyboardEvent ArrowRight]"

definition liftedState :: State where
  "liftedState = stateWith columnGrid (liftedT \<lparr> x := Num 2 \<rparr>) pieceI"

section \<open>Row clearing\<close>

lemma filter_not_full_id: "filter rowFull g = [] \<Longrightarrow> filter (\<lambda>row. \<not> rowFull row) g = g"
  by (induction g) (auto split: if_splits)

text \<open>
  Claim C7. A row is full when every cell equals 1 (\<open>rowFull\<close>). On a grid without full
  rows \<open>clearCompletedRows\<close> returns the grid as it is, with count 0. On every grid, with
  \<open>k\<close> the number of full rows, it returns \<open>k\<close> rows of \<open>GRID_WIDTH\<close> zeros followed by the
  rows that are not full, in their original order, and the count \<open>k\<close>.
\<close>

theorem clearCompletedRows_spec:
  "(filter rowFull g = [] \<longrightarrow> clearCompletedRows g = (g, 0)) \<and>
   clearCompletedRows g =
     (replicate (length (filter rowFull g)) (replicate GRID_WIDTH (Num 0))
        @ filter (\<lambda>row. \<not> rowFull row) g,
      length (filter rowFull g))"
  by (simp add: clearCompletedRows_def Let_def filter_not_full_id)

text \<open>The claim at a grid without a full row, and at a three-row grid whose first and last
  rows are full.\<close>

theorem clearCompletedRows_spec_witness:
  "clearCompletedRows [[c1, c0], [c0, c0]] = ([[c1, c0], [c0, c0]], 0)
   \<and> clearCompletedRows [[c1, c1], [c0, c1], [c1, c1]]
       = ([replicate GRID_WIDTH (Num 0), replicate GRID_WIDTH (Num 0), [c0, c1]], 2)"
  using clearCompletedRows_spec [of "[[c1, c0], [c0, c0]]"]
    clearCompletedRows_spec [of "[[c1, c1], [c0, c1], [c1, c1]]"]
  by (simp add: rowFull_def)

section \<open>Rotating a matrix\<close>

text \<open>On a matrix with at least one row, all rows of length \<open>c\<close>, \<open>rotateMatrix\<close> returns
  \<open>c\<close> rows: row \<open>i\<close> of the result is column \<open>i\<close> of the argument read from the bottom
  up, which is the quarter turn clockwise.\<close>

lemma rotateMatrix_cells:
  assumes ne: "m \<noteq> []" and rect: "\<forall>row\<in>set m. length row = c"
  shows "\<exists>m'. rotateMatrix m = Inr m' \<and> length m' = c
           \<and> (\<forall>row\<in>set m'. length row = length m)
           \<and> (\<forall>i<c. \<forall>j<length m. m' ! i ! j = m ! (length m - 1 - j) ! i)"
proof -
  obtain row0 rest where m: "m = row0 # rest" using ne by (cases m) auto
  have c: "length row0 = c" using rect m by simp
  define m' where "m' = map (\<lambda>i. rev (map (\<lambda>row. js_nth row i) m)) [0 ..< c]"
  have rm: "rotateMatrix m = Inr m'"
    by (simp add: rotateMatrix_def m c m'_def Let_def)
  have cells: "m' ! i ! j = m ! (length m - 1 - j) ! i" if "i < c" "j < length m" for i j
  proof -
    have k: "length m - 1 - j < length m" using that by simp
    then have "length (m ! (length m - 1 - j)) = c" using rect nth_mem by blast
    then show ?thesis using that k
      by (simp add: m'_def rev_nth js_nth_def)
  qed
  show ?thesis using rm cells by (auto simp: m'_def)
qed

lemma rotateMatrix_square:
  assumes ne: "m \<noteq> []" and sq: "\<forall>row\<in>set m. length row = length m"
  shows "\<exists>m'. rotateMatrix m = Inr m' \<and> m' \<noteq> [] \<and> length m' = length m
           \<and> (\<forall>row\<in>set m'. length row = length m')
           \<and> (\<forall>i<length m. \<forall>j<length m. m' ! i ! j = m ! (length m - 1 - j) ! i)"
proof -
  from rotateMatrix_cells [OF ne sq] obtain m' where
    r: "rotateMatrix m = Inr m'" and l: "length m' = length m"
    and rows: "\<forall>row\<in>set m'. length row = length m"
    and cells: "\<forall>i<length m. \<forall>j<length m. m' ! i ! j = m ! (length m - 1 - j) ! i"
    by blast
  have "m' \<noteq> []" using l ne by auto
  then show ?thesis using r l rows cells by auto
qed

text \<open>Claim C10, four quarter turns, as stated for every square matrix, fails at the
  matrix without rows: it is square, and \<open>rotateMatrix\<close> throws on it.\<close>

theorem rotateMatrix_empty_counterexample:
  "isSquare [] \<and> rotateFourTimes [] = Inl TypeError"
  by (simp add: isSquare_def rotateFourTimes_def rotateMatrix_def then_e_def)

text \<open>
  Claim C10, amended. For every square matrix with at least one row (each row as long as
  the matrix has rows), applying \<open>rotateMatrix\<close> four times returns, without throwing, the
  original matrix.
\<close>

theorem rotateMatrix_four_times:
  assumes ne: "m \<noteq> []" and square: "isSquare m"
  shows "rotateFourTimes m = Inr m"
proof -
  let ?n = "length m"
  from square have sq: "\<forall>row\<in>set m. length row = ?n"
    by (simp add: isSquare_def list_all_iff)
  from rotateMatrix_square [OF ne sq] obtain m1 where
    r1: "rotateMatrix m = Inr m1" and ne1: "m1 \<noteq> []" and l1: "length m1 = ?n"
    and sq1: "\<forall>row\<in>set m1. length row = length m1"
    and c1: "\<forall>i<?n. \<forall>j<?n. m1 ! i ! j = m ! (?n - 1 - j) ! i" by blast
  from rotateMatrix_square [OF ne1 sq1] obtain m2 where
    r2: "rotateMatrix m1 = Inr m2" and ne2: "m2 \<noteq> []" and l2: "length m2 = ?n"
    and sq2: "\<forall>row\<in>set m2. length row = length m2"
    and c2: "\<forall>i<?n. \<forall>j<?n. m2 ! i ! j = m1 ! (?n - 1 - j) ! i" using l1 by auto
  from rotateMatrix_square [OF ne2 sq2] obtain m3 where
    r3: "rotateMatrix m2 = Inr m3" and ne3: "m3 \<noteq> []" and l3: "length m3 = ?n"
    and sq3: "\<forall>row\<in>set m3. length row = length m3"
    and c3: "\<forall>i<?n. \<forall>j<?n. m3 ! i ! j = m2 ! (?n - 1 - j) ! i" using l2 by auto
  from rotateMatrix_square [OF ne3 sq3] obtain m4 where
    r4: "rotateMatrix m3 = Inr m4" and l4: "length m4 = ?n"
    and sq4: "\<forall>row\<in>set m4. length row = length m4"
    and c4: "\<forall>i<?n. \<forall>j<?n. m4 ! i ! j = m3 ! (?n - 1 - j) ! i" using l3 by auto
  have cell: "m4 ! i ! j = m ! i ! j" if "i < ?n" "j < ?n" for i j
  proof -
    have a: "?n - 1 - j < ?n" "?n - 1 - i < ?n" using that by auto
    have "m4 ! i ! j = m3 ! (?n - 1 - j) ! i" using c4 that by simp
    also have "\<dots> = m2 ! (?n - 1 - i) ! (?n - 1 - j)" using c3 that a by simp
    also have "\<dots> = m1 ! (?n - 1 - (?n - 1 - j)) ! (?n - 1 - i)" using c2 that a by simp
    also have "\<dots> = m1 ! j ! (?n - 1 - i)" using that by simp
    also have "\<dots> = m ! (?n - 1 - (?n - 1 - i)) ! j" using c1 that a by simp
    also have "\<dots> = m ! i ! j" using that by simp
    finally show ?thesis .
  qed
  have row: "m4 ! i = m ! i" if "i < ?n" for i
  proof (rule nth_equalityI)
    show "length (m4 ! i) = length (m ! i)"
      using sq sq4 l4 that by (metis nth_mem)
    show "\<And>j. j < length (m4 ! i) \<Longrightarrow> m4 ! i ! j = m ! i ! j"
      using cell that sq4 l4 by (metis nth_mem)
  qed
  have "m4 = m" by (rule nth_equalityI) (use l4 row in auto)
  then show ?thesis by (simp add: rotateFourTimes_def then_e_def r1 r2 r3 r4)
qed

text \<open>The claim at the shape of the T piece.\<close>

theorem rotateMatrix_four_times_witness:
  "rotateFourTimes [[c0, c1, c0], [c1, c1, c1], [c0, c0, c0]]
     = Inr [[c0, c1, c0], [c1, c1, c1], [c0, c0, c0]]"
  using rotateMatrix_four_times [of "[[c0, c1, c0], [c1, c1, c1], [c0, c0, c0]]"]
  by (simp add: isSquare_def)

section \<open>Collision on a grid of full height\<close>

lemma some_e_pure:
  "(\<And>i a. a \<in> set xs \<Longrightarrow> p i a = Inr (q i a)) \<Longrightarrow> some_e p k xs = Inr (some_i q k xs)"
  by (induction xs arbitrary: k) auto

lemma some_i_iff: "some_i q k xs \<longleftrightarrow> (\<exists>j<length xs. q (k + j) (xs ! j))"
proof (induction xs arbitrary: k)
  case Nil
  then show ?case by simp
next
  case (Cons a as)
  show ?case
  proof (cases "q k a")
    case True
    then show ?thesis by (auto intro: exI [of _ 0])
  next
    case False
    have "(\<exists>j<length (a # as). q (k + j) ((a # as) ! j))
            \<longleftrightarrow> (\<exists>j<length as. q (Suc k + j) (as ! j))"
    proof
      assume "\<exists>j<length (a # as). q (k + j) ((a # as) ! j)"
      then obtain j where j: "j < length (a # as)" "q (k + j) ((a # as) ! j)" by blast
      with False obtain j' where "j = Suc j'" by (cases j) auto
      with j show "\<exists>j<length as. q (Suc k + j) (as ! j)" by auto
    next
      assume "\<exists>j<length as. q (Suc k + j) (as ! j)"
      then obtain j where "j < length as" "q (Suc k + j) (as ! j)" by blast
      then show "\<exists>j<length (a # as). q (k + j) ((a # as) ! j)"
        by (intro exI [of _ "Suc j"]) simp
    qed
    with False Cons.IH [of "Suc k"] show ?thesis by simp
  qed
qed

text \<open>With at least \<open>GRID_HEIGHT\<close> rows in the grid, the row read by a cell test exists,
  and the test on a cell does not throw.\<close>

lemma cell_no_throw:
  assumes "GRID_HEIGHT \<le> length g"
  shows "(if cell = Num 1 then
           (let newX = js_add px (Num (int xBlock));
                newY = js_add py (Num (int yBlock))
            in if js_ge newY (Num (int GRID_HEIGHT)) then Inr True
               else if js_lt newX (Num 0) then Inr True
               else if js_ge newX (Num (int GRID_WIDTH)) then Inr True
               else if js_ge newY (Num 0) then gridCellIsOne g newY newX
               else Inr False)
         else Inr False) = Inr (cellHits px py g yBlock xBlock cell)"
proof (cases "js_add py (Num (int yBlock))")
  case (Num ny)
  then show ?thesis using assms
    by (auto simp: cellHits_def Let_def gridCellIsOne_def split: option.splits)
next
  case NaN
  then show ?thesis by (simp add: cellHits_def Let_def)
next
  case Undefined
  then show ?thesis by (simp add: cellHits_def Let_def)
qed

lemma isCollision_tall:
  assumes "GRID_HEIGHT \<le> length g"
  shows "isCollision px py sh g = Inr (collides px py sh g)"
  unfolding isCollision_def collides_def
  by (intro some_e_pure) (simp only: cell_no_throw [OF assms])

lemma isSettled_tall:
  assumes "GRID_HEIGHT \<le> length g"
  shows "isSettled t g = Inr (collides (x t) (js_add (y t) (Num 1)) (shape t) g
                              \<or> isOutOfBounds (x t) (js_add (y t) (Num 1)) (shape t))"
  by (simp add: isSettled_def Let_def isCollision_tall [OF assms])

lemma isOutOfBounds_iff:
  "isOutOfBounds px py sh \<longleftrightarrow>
     (\<exists>r<length sh. \<exists>c<length (sh ! r). sh ! r ! c = Num 1 \<and>
        (js_lt (js_add px (Num (int c))) (Num 0)
         \<or> js_ge (js_add px (Num (int c))) (Num (int GRID_WIDTH))
         \<or> js_ge (js_add py (Num (int r))) (Num (int GRID_HEIGHT))))"
  unfolding isOutOfBounds_def some_i_iff Let_def by auto

lemma below_floor_out_of_bounds:
  assumes occ: "\<exists>row\<in>set sh. Num 1 \<in> set row" and low: "int GRID_HEIGHT \<le> yy"
  shows "isOutOfBounds (Num xx) (Num yy) sh"
proof -
  from occ obtain r c where "r < length sh" "c < length (sh ! r)" "sh ! r ! c = Num 1"
    by (metis in_set_conv_nth)
  moreover have "js_ge (js_add (Num yy) (Num (int r))) (Num (int GRID_HEIGHT))"
    using low by simp
  ultimately show ?thesis unfolding isOutOfBounds_iff by blast
qed

section \<open>Hard drop: the descent\<close>

text \<open>A piece that is not settled moves down by one row.\<close>

lemma moveTetromino_down:
  assumes tall: "GRID_HEIGHT \<le> length (grid s)"
    and px: "x (currentTetromino s) = Num xi" and py: "y (currentTetromino s) = Num yi"
    and free: "isSettled (currentTetromino s) (grid s) = Inr False"
  shows "moveTetromino s 0 1
           = Inr (s \<lparr> currentTetromino := (currentTetromino s) \<lparr> y := Num (yi + 1) \<rparr> \<rparr>)"
proof -
  have m: "(currentTetromino s) \<lparr> x := js_add (x (currentTetromino s)) (Num 0),
                                  y := js_add (y (currentTetromino s)) (Num 1) \<rparr>
           = (currentTetromino s) \<lparr> y := Num (yi + 1) \<rparr>"
    using px py by simp
  from free have "\<not> collides (Num xi) (Num (yi + 1)) (shape (currentTetromino s)) (grid s)"
    and "\<not> isOutOfBounds (Num xi) (Num (yi + 1)) (shape (currentTetromino s))"
    using px py by (simp_all add: isSettled_tall [OF tall])
  then show ?thesis
    unfolding moveTetromino_def m Let_def
    using px by (simp add: isCollision_tall [OF tall])
qed

lemma drop_descends:
  assumes occ: "\<exists>row\<in>set (shape (currentTetromino s)). Num 1 \<in> set row"
    and tall: "GRID_HEIGHT \<le> length (grid s)"
    and px: "x (currentTetromino s) = Num xi"
    and py: "y (currentTetromino s) = Num yi"
  shows "\<exists>yf. dropOneStepRecursive s
               = Some (Inr (s \<lparr> currentTetromino := (currentTetromino s) \<lparr> y := Num yf \<rparr> \<rparr>))
           \<and> isSettled ((currentTetromino s) \<lparr> y := Num yf \<rparr>) (grid s) = Inr True
           \<and> (\<forall>y'. yi \<le> y' \<and> y' < yf \<longrightarrow>
                 isSettled ((currentTetromino s) \<lparr> y := Num y' \<rparr>) (grid s) = Inr False)
           \<and> yi \<le> yf \<and> yf \<le> max yi (int GRID_HEIGHT - 1)"
  using assms
proof (induction "nat (int GRID_HEIGHT - yi)" arbitrary: s yi rule: less_induct)
  case less
  let ?t = "currentTetromino s"
  from isSettled_tall [OF less.prems(2)] obtain b where b: "isSettled ?t (grid s) = Inr b"
    by blast
  have same: "?t \<lparr> y := Num yi \<rparr> = ?t" using less.prems(4) by simp
  show ?case
  proof (cases b)
    case True
    have "s \<lparr> currentTetromino := ?t \<lparr> y := Num yi \<rparr> \<rparr> = s"
      using less.prems(4) by simp
    moreover have "dropOneStepRecursive s = Some (Inr s)"
      using b True by (subst dropOneStepRecursive.simps) simp
    ultimately show ?thesis using b True same by (intro exI [of _ yi]) auto
  next
    case False
    with b have free: "isSettled ?t (grid s) = Inr False" by simp
    let ?s1 = "s \<lparr> currentTetromino := ?t \<lparr> y := Num (yi + 1) \<rparr> \<rparr>"
    have mv: "moveTetromino s 0 1 = Inr ?s1"
      by (rule moveTetromino_down [OF less.prems(2) less.prems(3) less.prems(4) free])
    have "\<not> isOutOfBounds (Num xi) (Num (yi + 1)) (shape ?t)"
      using free less.prems(3,4) by (simp add: isSettled_tall [OF less.prems(2)])
    then have hi: "yi + 1 < int GRID_HEIGHT"
      using below_floor_out_of_bounds [OF less.prems(1), of "yi + 1" xi] by fastforce
    then have meas: "nat (int GRID_HEIGHT - (yi + 1)) < nat (int GRID_HEIGHT - yi)" by simp
    have "\<exists>yf. dropOneStepRecursive ?s1
               = Some (Inr (?s1 \<lparr> currentTetromino := (currentTetromino ?s1) \<lparr> y := Num yf \<rparr> \<rparr>))
           \<and> isSettled ((currentTetromino ?s1) \<lparr> y := Num yf \<rparr>) (grid ?s1) = Inr True
           \<and> (\<forall>y'. yi + 1 \<le> y' \<and> y' < yf \<longrightarrow>
                 isSettled ((currentTetromino ?s1) \<lparr> y := Num y' \<rparr>) (grid ?s1) = Inr False)
           \<and> yi + 1 \<le> yf \<and> yf \<le> max (yi + 1) (int GRID_HEIGHT - 1)"
      by (rule less.hyps [OF meas]) (use less.prems in simp_all)
    then obtain yf where
      d: "dropOneStepRecursive ?s1 = Some (Inr (s \<lparr> currentTetromino := ?t \<lparr> y := Num yf \<rparr> \<rparr>))"
      and st: "isSettled (?t \<lparr> y := Num yf \<rparr>) (grid s) = Inr True"
      and fr: "\<forall>y'. yi + 1 \<le> y' \<and> y' < yf \<longrightarrow>
                 isSettled (?t \<lparr> y := Num y' \<rparr>) (grid s) = Inr False"
      and bd: "yi + 1 \<le> yf" "yf \<le> max (yi + 1) (int GRID_HEIGHT - 1)"
      by auto
    have fr': "isSettled (?t \<lparr> y := Num y' \<rparr>) (grid s) = Inr False"
      if "yi \<le> y'" "y' < yf" for y'
    proof (cases "y' = yi")
      case True
      then show ?thesis using free same by simp
    next
      case False
      then show ?thesis using that fr by simp
    qed
    have "dropOneStepRecursive s = dropOneStepRecursive ?s1"
      using free mv by (subst dropOneStepRecursive.simps) simp
    with d st bd hi fr' show ?thesis by (intro exI [of _ yf]) auto
  qed
qed

section \<open>Rotation with wall kicks\<close>

lemma find_e_pure:
  "(\<And>a. a \<in> set xs \<Longrightarrow> p a = Inr (q a)) \<Longrightarrow> find_e p xs = Inr (find q xs)"
  by (induction xs) auto

lemma attemptWallKick_tall:
  assumes tall: "GRID_HEIGHT \<le> length g"
    and tests: "kickTests (key cur) (orientation cur) = Some tests"
  shows "attemptWallKick cur rot g
           = Inr (map_option (kickBy rot) (find (\<lambda>test. legal (kickBy rot test) g) tests))"
proof -
  from tests obtain table where t: "WallKickData (key cur) = Some table"
    and i: "js_index table (Num (orientation cur)) = Some tests"
    by (auto simp: kickTests_def split: option.splits)
  have f: "find_e (\<lambda>test.
             let adjustedTetromino = kickBy rot test in
             case isCollision (x adjustedTetromino) (y adjustedTetromino)
                    (shape adjustedTetromino) g of
               Inl e \<Rightarrow> Inl e
             | Inr b \<Rightarrow> Inr (\<not> b \<and> \<not> isOutOfBounds (x adjustedTetromino)
                           (y adjustedTetromino) (shape adjustedTetromino))) tests
           = Inr (find (\<lambda>test. legal (kickBy rot test) g) tests)"
    by (rule find_e_pure) (simp add: Let_def legal_def isCollision_tall [OF tall])
  show ?thesis
    by (simp add: attemptWallKick_def t i f del: js_index.simps split: option.splits)
qed

lemma js_rem_4: "0 \<le> a \<Longrightarrow> js_rem a 4 = a mod 4"
  by (simp add: js_rem_def)

lemma four_cases: "0 \<le> ori \<Longrightarrow> ori < 4 \<Longrightarrow> ori = 0 \<or> ori = 1 \<or> ori = 2 \<or> ori = (3::int)"
  by arith

lemma rotateTetromino_unfold:
  assumes r: "rotateMatrix (shape (currentTetromino s)) = Inr rotatedShape"
    and tall: "GRID_HEIGHT \<le> length (grid s)"
    and rot: "rot = (currentTetromino s)
                 \<lparr> orientation := js_rem (orientation (currentTetromino s) + 1) 4,
                   shape := rotatedShape \<rparr>"
  shows "rotateTetromino s =
           (if legal rot (grid s) then Inr (s \<lparr> currentTetromino := rot \<rparr>)
            else (case attemptWallKick (currentTetromino s) rot (grid s) of
                    Inl e \<Rightarrow> Inl e
                  | Inr None \<Rightarrow> Inr s
                  | Inr (Some wallKickedTetromino) \<Rightarrow>
                      Inr (s \<lparr> currentTetromino := wallKickedTetromino \<rparr>)))"
proof -
  have c: "isCollision (x rot) (y rot) (shape rot) (grid s)
           = Inr (collides (x rot) (y rot) (shape rot) (grid s))"
    by (rule isCollision_tall [OF tall])
  have l: "legal rot (grid s) \<longleftrightarrow> \<not> collides (x rot) (y rot) (shape rot) (grid s)
             \<and> \<not> isOutOfBounds (x rot) (y rot) (shape rot)"
    by (simp add: legal_def c)
  show ?thesis
    unfolding rotateTetromino_def r sum.case Let_def rot [symmetric] c l
    by (simp split: sum.splits option.splits)
qed

section \<open>The tick\<close>

text \<open>The row of the shape read by the merge exists wherever \<open>isOverlap\<close> holds.\<close>

lemma overlap_row_exists:
  assumes "isOverlap t (length (shape t)) xLength yIndex xIndex"
  shows "js_index (shape t) (js_sub (Num (int yIndex)) (y t)) \<noteq> None"
proof (cases "y t")
  case (Num yp)
  with assms show ?thesis by (auto simp: isOverlap_def)
next
  case NaN
  with assms show ?thesis by (simp add: isOverlap_def)
next
  case Undefined
  with assms show ?thesis by (simp add: isOverlap_def)
qed

lemma isCollision_Nil: "isCollision px py [] g = Inr False"
  by (simp add: isCollision_def)

lemma isOutOfBounds_Nil: "\<not> isOutOfBounds px py []"
  by (simp add: isOutOfBounds_def)

lemma settled_shape: "isSettled t g = Inr True \<Longrightarrow> shape t \<noteq> []"
  by (auto simp: isSettled_def Let_def isCollision_Nil isOutOfBounds_Nil)


lemma floor7: "0 \<le> rng \<Longrightarrow> rng < 1 \<Longrightarrow> \<exists>i<7. \<lfloor>rng * 7\<rfloor> = int i" for rng :: real
proof -
  assume a: "0 \<le> rng" "rng < 1"
  have f1: "0 \<le> \<lfloor>rng * 7\<rfloor>" using a by simp
  have f2: "\<lfloor>rng * 7\<rfloor> < 7" using a by (simp add: floor_less_iff)
  have "nat \<lfloor>rng * 7\<rfloor> < 7" using f1 f2 by linarith
  moreover have "\<lfloor>rng * 7\<rfloor> = int (nat \<lfloor>rng * 7\<rfloor>)" using f1 by linarith
  ultimately show ?thesis by blast
qed

lemma seven_cases: "i < 7 \<Longrightarrow> i = 0 \<or> i = 1 \<or> i = 2 \<or> i = 3 \<or> i = 4 \<or> i = 5 \<or> i = (6::nat)"
  by arith

lemma getRandomTetromino_ok:
  assumes "0 \<le> rng" and "rng < 1"
  shows "\<exists>drawn. getRandomTetromino rng = Inr drawn"
proof -
  from floor7 [OF assms] obtain i where i: "i < 7" "\<lfloor>rng * 7\<rfloor> = int i" by blast
  from seven_cases [OF i(1)] show ?thesis
    by (auto simp: getRandomTetromino_def tetrominoKeys_def i(2) Let_def TetrominoShapes_def
          TetrominoColours_def spawnX_def)
qed

text \<open>
  The merge, cell by cell. For a piece with at least one row in its shape, anchored at
  integers, \<open>updateGrid\<close> returns a grid of the same dimensions; a cell inside the
  rectangle that the shape covers (as many rows as the shape has, as many columns as its
  first row) is the sum of the old cell and the cell of the shape lying over it, and every
  other cell is as it was.
\<close>

lemma updateGrid_cells:
  assumes sh: "shape t = row0 # rest" and px: "x t = Num xi" and py: "y t = Num yi"
    and r: "r < length g" and c: "c < length (g ! r)"
  shows "\<exists>merged. updateGrid g t = Inr merged \<and> length merged = length g
     \<and> length (merged ! r) = length (g ! r)
     \<and> merged ! r ! c =
         (if yi \<le> int r \<and> int r < yi + int (length (shape t))
             \<and> xi \<le> int c \<and> int c < xi + int (length row0)
          then js_add (g ! r ! c) (js_nth (shape t ! nat (int r - yi)) (nat (int c - xi)))
          else g ! r ! c)"
proof -
  define merged where "merged =
     map (\<lambda>(yIndex, row).
        map (\<lambda>(xIndex, cell).
          if isOverlap t (length (shape t)) (length row0) yIndex xIndex then
            js_add cell (shapeCell (shape t) (js_sub (Num (int yIndex)) (y t))
                                             (js_sub (Num (int xIndex)) (x t)))
          else cell) (enumerate 0 row)) (enumerate 0 g)"
  have u: "updateGrid g t = Inr merged"
    unfolding updateGrid_def merged_def using sh by (simp add: Let_def)
  have cell: "shapeCell (shape t) (Num (int r - yi)) (Num (int c - xi))
              = js_nth (shape t ! nat (int r - yi)) (nat (int c - xi))"
    if "yi \<le> int r" "int r < yi + int (length (shape t))" "xi \<le> int c"
    using that by (auto simp: shapeCell_def js_nth_def split: option.splits)
  have l: "length merged = length g" by (simp add: merged_def)
  have lr: "length (merged ! r) = length (g ! r)"
    using r by (simp add: merged_def nth_enumerate_eq)
  have "merged ! r ! c =
         (if yi \<le> int r \<and> int r < yi + int (length (shape t))
             \<and> xi \<le> int c \<and> int c < xi + int (length row0)
          then js_add (g ! r ! c) (js_nth (shape t ! nat (int r - yi)) (nat (int c - xi)))
          else g ! r ! c)"
    using r c cell by (simp add: merged_def nth_enumerate_eq isOverlap_def px py)
  with u l lr show ?thesis by blast
qed

text \<open>
  The tick on a settled piece. When the active piece is settled and the end condition of
  \<open>isGameEnd\<close> does not hold, and \<open>rng\<close> is a random number from 0 up to but not including
  1, \<open>tick\<close> returns the state with: as grid the old grid with the piece merged by
  \<open>updateGrid\<close> and the completed rows cleared by \<open>clearCompletedRows\<close>; as score the old
  score plus 100 times the number of rows cleared; as level that score divided by 1000,
  rounded down; as high score the larger of the old high score and the new score; as
  active piece the old next piece; as next piece the one \<open>getRandomTetromino\<close> draws from
  \<open>rng\<close>. No other field changes.
\<close>

lemma tick_settle:
  assumes settled: "isSettled (currentTetromino s) (grid s) = Inr True"
    and noend: "isGameEnd s = Inr False"
    and rng: "0 \<le> rng" "rng < 1"
  shows "\<exists>merged drawn.
           updateGrid (grid s) (currentTetromino s) = Inr merged
         \<and> getRandomTetromino rng = Inr drawn
         \<and> tick s rng =
             Inr (s \<lparr> grid := fst (clearCompletedRows merged),
                      currentTetromino := nextTetromino s,
                      nextTetromino := drawn,
                      level := (score s + 100 * int (snd (clearCompletedRows merged))) div 1000,
                      score := score s + 100 * int (snd (clearCompletedRows merged)),
                      highScore := max (highScore s)
                                     (score s + 100 * int (snd (clearCompletedRows merged))) \<rparr>)"
proof -
  from settled_shape [OF settled] obtain merged where
    m: "updateGrid (grid s) (currentTetromino s) = Inr merged"
    by (cases "shape (currentTetromino s)") (auto simp: updateGrid_def Let_def)
  from getRandomTetromino_ok [OF rng] obtain drawn where d: "getRandomTetromino rng = Inr drawn"
    by blast
  have fl: "\<lfloor>real_of_int k / 1000\<rfloor> = k div 1000" for k :: int
    using floor_divide_of_int_eq [of k 1000] by simp
  have "tick s rng =
             Inr (s \<lparr> grid := fst (clearCompletedRows merged),
                      currentTetromino := nextTetromino s,
                      nextTetromino := drawn,
                      level := (score s + 100 * int (snd (clearCompletedRows merged))) div 1000,
                      score := score s + 100 * int (snd (clearCompletedRows merged)),
                      highScore := max (highScore s)
                                     (score s + 100 * int (snd (clearCompletedRows merged))) \<rparr>)"
    unfolding tick_def noend settled m d Let_def sum.case fl
    by (simp add: max_def mult.commute)
  with m d show ?thesis by blast
qed

text \<open>An O piece resting in the gap of the bottom row: the row is completed and cleared,
  the score is 100, and \<open>rng = 1/2\<close> draws the O piece.\<close>

lemma tick_settle_example:
  "tick settleState (1 / 2)
     = Inr (settleState \<lparr> grid := settledGrid, currentTetromino := pieceT,
                          nextTetromino := pieceO, level := 0, score := 100,
                          highScore := 100 \<rparr>)"
proof -
  have h1: "isSettled (currentTetromino settleState) (grid settleState) = Inr True"
    by code_simp
  have h2: "isGameEnd settleState = Inr False"
    by code_simp
  from tick_settle [OF h1 h2, of "1 / 2"] obtain merged drawn where
    m: "updateGrid (grid settleState) (currentTetromino settleState) = Inr merged"
    and d: "getRandomTetromino (1 / 2) = Inr drawn"
    and t: "tick settleState (1 / 2) =
             Inr (settleState \<lparr> grid := fst (clearCompletedRows merged),
                      currentTetromino := nextTetromino settleState,
                      nextTetromino := drawn,
                      level := (score settleState + 100 * int (snd (clearCompletedRows merged))) div 1000,
                      score := score settleState + 100 * int (snd (clearCompletedRows merged)),
                      highScore := max (highScore settleState)
                                     (score settleState + 100 * int (snd (clearCompletedRows merged))) \<rparr>)"
    by auto
  have "updateGrid (grid settleState) (currentTetromino settleState)
          = Inr (replicate 18 emptyRow @ [[c0, c0, c0, c0, c1, c1, c0, c0, c0, c0],
                                          [c1, c1, c1, c1, c1, c1, c1, c1, c1, c1]])"
    by code_simp
  with m have merged: "merged = replicate 18 emptyRow @ [[c0, c0, c0, c0, c1, c1, c0, c0, c0, c0],
                                          [c1, c1, c1, c1, c1, c1, c1, c1, c1, c1]]"
    by simp
  have "getRandomTetromino (1 / 2) = Inr pieceO" by code_simp
  with d have drawn: "drawn = pieceO" by simp
  have c: "clearCompletedRows (replicate 18 emptyRow @ [[c0, c0, c0, c0, c1, c1, c0, c0, c0, c0],
                                          [c1, c1, c1, c1, c1, c1, c1, c1, c1, c1]])
           = (settledGrid, 1)"
    by code_simp
  have n: "nextTetromino settleState = pieceT" "score settleState = 0" "highScore settleState = 0"
    by (simp_all add: settleState_def stateWith_def)
  show ?thesis unfolding t merged drawn c n by simp
qed

section \<open>The end of the game\<close>




section \<open>The random numbers\<close>

text \<open>
  Claim C2 says that \<open>scale (hash seed)\<close> lies in the interval from 0 up to but not
  including 1 for every seed, as the comment on \<open>scale\<close> in util.ts does, so that the
  index \<open>floor (7 * value)\<close> is one of the seven kinds. \<open>hash\<close> ranges over the remainders
  modulo \<open>m\<close>, up to but not including \<open>m\<close>, and \<open>scale\<close> divides by \<open>m - 1\<close>: a hash of
  \<open>m - 1\<close> or more is scaled to 1 or more. At the seed 1.946027761 the hash is
  2147483646.456..., the scaled value exceeds 1, the index is 7, no key is found and
  \<open>getRandomTetromino\<close> throws.
\<close>

theorem scale_reaches_one:
  "hash badSeed = 2147483646 + 91343289 / 200000000
   \<and> RNG_m - 1 \<le> hash badSeed \<and> hash badSeed < RNG_m
   \<and> 1 \<le> scale (hash badSeed)
   \<and> \<lfloor>scale (hash badSeed) * 7\<rfloor> = 7
   \<and> getRandomTetromino (scale (hash badSeed)) = Inl TypeError"
  by code_simp

section \<open>Hold\<close>

lemma resetPosition_valid:
  assumes "key t \<in> set tetrominoKeys"
  shows "\<exists>c. resetPosition t = Inr c \<and> resetPosition c = Inr c"
  using assms
  by (auto simp: tetrominoKeys_def resetPosition_def TetrominoShapes_def spawnX_def)

lemma resetPosition_fields:
  "resetPosition t = Inr c \<Longrightarrow>
     key c = key t \<and> colour c = colour t \<and> orientation c = 0
     \<and> TetrominoShapes (key t) = Some (shape c) \<and> y c = Num (-2)"
  by (auto simp: resetPosition_def INITIAL_ORIENTATION_def split: option.splits sum.splits)

text \<open>
  Two Hold actions as claim C3 states them fail at a T piece that has fallen from its
  spawn row -2 to row 5: the first hold stores the piece reset to spawn defaults, the
  second takes it back from there, at row -2.
\<close>

theorem hold_twice_counterexample:
  "holdTwice movedState 0 0
     = Inr (movedState \<lparr> currentTetromino := pieceT, nextTetromino := pieceI,
                         holdTetromino := Some pieceO \<rparr>)
   \<and> currentTetromino movedState = pieceT \<lparr> y := Num 5 \<rparr>
   \<and> pieceT \<noteq> pieceT \<lparr> y := Num 5 \<rparr>"
  by code_simp

text \<open>
  Claim C3, amended. For every state whose pieces are of the seven kinds (the active
  piece, and the held piece or, with nothing held, the next piece), and random numbers
  \<open>r1\<close>, \<open>r2\<close> with \<open>r1\<close> in the documented range when the first hold has to draw a piece:
  two Hold actions in a row return a state whose active piece is the original active
  piece reset by \<open>resetPosition\<close>: the same key and colour, orientation 0, the shape of
  the kind as listed in \<open>TetrominoShapes\<close>, and the spawn position with \<open>y = -2\<close>. It is the
  original piece by value exactly when that piece was still at its spawn defaults.
\<close>

theorem hold_twice_resets:
  assumes cur: "key (currentTetromino s) \<in> set tetrominoKeys"
    and other: "case holdTetromino s of
                  None \<Rightarrow> 0 \<le> r1 \<and> r1 < 1 \<and> key (nextTetromino s) \<in> set tetrominoKeys
                | Some h \<Rightarrow> key h \<in> set tetrominoKeys"
  shows "\<exists>s2 c. holdTwice s r1 r2 = Inr s2 \<and> resetPosition (currentTetromino s) = Inr c
                \<and> currentTetromino s2 = c
                \<and> key c = key (currentTetromino s) \<and> colour c = colour (currentTetromino s)
                \<and> orientation c = 0 \<and> TetrominoShapes (key (currentTetromino s)) = Some (shape c)
                \<and> y c = Num (-2)"
proof -
  from resetPosition_valid [OF cur] obtain c where
    c: "resetPosition (currentTetromino s) = Inr c" "resetPosition c = Inr c" by blast
  note f = resetPosition_fields [OF c(1)]
  show ?thesis
  proof (cases "holdTetromino s")
    case None
    with other have r: "0 \<le> r1" "r1 < 1" and n: "key (nextTetromino s) \<in> set tetrominoKeys"
      by simp_all
    from getRandomTetromino_ok [OF r] obtain drawn where d: "getRandomTetromino r1 = Inr drawn"
      by blast
    from resetPosition_valid [OF n] obtain n' where n': "resetPosition (nextTetromino s) = Inr n'"
      by blast
    have "holdTwice s r1 r2
            = Inr (s \<lparr> currentTetromino := c, nextTetromino := drawn,
                       holdTetromino := Some n', gameRestart := False \<rparr>)"
      by (simp add: holdTwice_def then_e_def holdState_def None d c n')
    with c f show ?thesis by simp
  next
    case (Some h)
    with other have "key h \<in> set tetrominoKeys" by simp
    from resetPosition_valid [OF this] obtain h' where
      h': "resetPosition h = Inr h'" "resetPosition h' = Inr h'" by blast
    have "holdTwice s r1 r2
            = Inr (s \<lparr> currentTetromino := c, holdTetromino := Some h', gameRestart := False \<rparr>)"
      by (simp add: holdTwice_def then_e_def holdState_def Some c h')
    with c f show ?thesis by simp
  qed
qed

text \<open>The amended claim at the fallen T piece with an I piece in hold; nothing is drawn
  then, and the first random number may be anything.\<close>

theorem hold_twice_resets_witness:
  "\<exists>s2. holdTwice movedStateHolding 7 0 = Inr s2 \<and> currentTetromino s2 = pieceT"
proof -
  have h1: "key (currentTetromino movedStateHolding) \<in> set tetrominoKeys"
    by (simp add: movedStateHolding_def movedState_def stateWith_def pieceT_def tetrominoKeys_def)
  have h2: "case holdTetromino movedStateHolding of
              None \<Rightarrow> (0::real) \<le> 7 \<and> (7::real) < 1
                      \<and> key (nextTetromino movedStateHolding) \<in> set tetrominoKeys
            | Some h \<Rightarrow> key h \<in> set tetrominoKeys"
    by (simp add: movedStateHolding_def pieceI_def tetrominoKeys_def)
  from hold_twice_resets [OF h1 h2, of 0] obtain s2 c where
    a: "holdTwice movedStateHolding 7 0 = Inr s2"
    and b: "resetPosition (currentTetromino movedStateHolding) = Inr c"
    and d: "currentTetromino s2 = c" by blast
  have "resetPosition (currentTetromino movedStateHolding) = Inr pieceT" by code_simp
  with b have "c = pieceT" by simp
  with a d show ?thesis by blast
qed

section \<open>Restart\<close>

text \<open>No transition but the merge of the tick touches the score or the high score, and the
  merge keeps the high score at or above the score.\<close>

lemma moveTetromino_scores:
  "moveTetromino s a b = Inr s' \<Longrightarrow> score s' = score s \<and> highScore s' = highScore s"
  by (auto simp: moveTetromino_def Let_def split: sum.splits if_splits)

lemma rotateTetromino_scores:
  "rotateTetromino s = Inr s' \<Longrightarrow> score s' = score s \<and> highScore s' = highScore s"
  by (auto simp: rotateTetromino_def Let_def split: sum.splits if_splits option.splits)

lemma updateState_scores:
  "updateState s k = Inr s' \<Longrightarrow> score s' = score s \<and> highScore s' = highScore s"
  using moveTetromino_scores rotateTetromino_scores
  by (auto simp: updateState_def split: if_splits)

lemma holdState_scores:
  "holdState s r = Inr s' \<Longrightarrow> score s' = score s \<and> highScore s' = highScore s"
  by (auto simp: holdState_def split: sum.splits option.splits)

lemma tick_scoresOrdered:
  assumes "tick s r = Inr s'" and "scoresOrdered s"
  shows "scoresOrdered s'"
proof -
  have mv: "scoresOrdered m" if "moveTetromino s 0 1 = Inr m" for m
    using moveTetromino_scores [OF that] assms(2) by (simp add: scoresOrdered_def)
  show ?thesis
    using assms mv unfolding tick_def
    by (auto simp: Let_def scoresOrdered_def split: sum.splits if_splits)
qed

lemma drop_scores_aux:
  "dropOneStepRecursive s = Some r \<Longrightarrow>
     (case r of Inl e \<Rightarrow> True | Inr s' \<Rightarrow> score s' = score s \<and> highScore s' = highScore s)"
proof (induction rule: dropOneStepRecursive.raw_induct [rotated 1, consumes 1])
  case (1 f cs r)
  show ?case
  proof (cases "isSettled (currentTetromino cs) (grid cs)")
    case (Inl e)
    with 1(2) show ?thesis by auto
  next
    case (Inr settled)
    show ?thesis
    proof (cases settled)
      case True
      with 1(2) Inr show ?thesis by auto
    next
      case False
      show ?thesis
      proof (cases "moveTetromino cs 0 1")
        case (Inl e)
        with 1(2) Inr False show ?thesis by auto
      next
        case mv: (Inr nextState)
        with 1(2) Inr False have "f nextState = Some r" by simp
        from 1(1) [OF this] moveTetromino_scores [OF mv] show ?thesis
          by (auto split: sum.splits)
      qed
    qed
  qed
qed

lemma drop_scores:
  "dropOneStepRecursive s = Some (Inr s') \<Longrightarrow> score s' = score s \<and> highScore s' = highScore s"
  using drop_scores_aux [of s "Inr s'"] by simp

lemma hardDrop_scoresOrdered:
  assumes "hardDrop s r = Some (Inr s')" and "scoresOrdered s"
  shows "scoresOrdered s'"
proof -
  from assms(1) obtain d where d: "dropTetromino s = Some (Inr d)" and t: "tick d r = Inr s'"
    by (auto simp: hardDrop_def split: option.splits sum.splits)
  from drop_scores [OF d [unfolded dropTetromino_def]] assms(2) have "scoresOrdered d"
    by (simp add: scoresOrdered_def)
  with t show ?thesis by (rule tick_scoresOrdered)
qed

lemma initial_scores:
  "INITIAL_STATE seed = Inr ini \<Longrightarrow> score ini = 0 \<and> highScore ini = 0 \<and> \<not> gameRestart ini"
  by (auto simp: INITIAL_STATE_def INITIAL_SCORE_def split: sum.splits)

lemma handleInput_scoresOrdered:
  assumes h: "handleInput ini s inp = Some (Inr s')" and inv: "scoresOrdered s"
    and ini: "score ini = 0"
  shows "scoresOrdered s'"
proof (cases inp)
  case (TickRng r)
  then show ?thesis using h inv tick_scoresOrdered
    by (auto simp: handleInput_def isMovement_def isPause_def isRestart_def isHardDrop_def
          isHold_def split: if_splits)
next
  case (KeyboardEvent k)
  then show ?thesis using h inv updateState_scores [of s k]
    by (auto simp: handleInput_def isMovement_def isPause_def isRestart_def isHardDrop_def
          isHold_def scoresOrdered_def split: if_splits sum.splits)
next
  case (MouseEvent b)
  then show ?thesis using h inv ini
    by (cases b) (auto simp: handleInput_def isMovement_def isPause_def isRestart_def
          isHardDrop_def isHold_def scoresOrdered_def split: if_splits)
next
  case (DropRng r)
  then show ?thesis using h inv hardDrop_scoresOrdered
    by (auto simp: handleInput_def isMovement_def isPause_def isRestart_def isHardDrop_def
          isHold_def split: if_splits)
next
  case (HoldRng r)
  then show ?thesis using h inv holdState_scores [of s r]
    by (auto simp: handleInput_def isMovement_def isPause_def isRestart_def isHardDrop_def
          isHold_def scoresOrdered_def split: if_splits sum.splits)
qed

lemma reachable_scoresOrdered: "reachable seed s \<Longrightarrow> scoresOrdered s"
proof (induction rule: reachable.induct)
  case (reachable_init ini)
  then show ?case using initial_scores by (simp add: scoresOrdered_def)
next
  case (reachable_step s ini inp s')
  then show ?case using handleInput_scoresOrdered initial_scores by blast
qed

text \<open>
  The restart as claim C9 states it fails at the initial state itself: the state
  returned is not the initial state up to the high score, its \<open>gameRestart\<close> flag is set.
\<close>

theorem restart_sets_flag_counterexample:
  "reachable 0 seedZeroState
   \<and> INITIAL_STATE 0 = Inr seedZeroState
   \<and> handleInput seedZeroState seedZeroState (MouseEvent RestartButton)
       = Some (Inr (seedZeroState \<lparr> gameRestart := True \<rparr>))
   \<and> seedZeroState \<lparr> gameRestart := True \<rparr>
       \<noteq> seedZeroState \<lparr> highScore := max (highScore seedZeroState) (score seedZeroState) \<rparr>"
proof -
  have i: "INITIAL_STATE 0 = Inr seedZeroState" by code_simp
  have r: "reachable 0 seedZeroState" by (rule reachable_init [OF i])
  have h: "handleInput seedZeroState seedZeroState (MouseEvent RestartButton)
             = Some (Inr (seedZeroState \<lparr> gameRestart := True \<rparr>))"
    by code_simp
  have n: "seedZeroState \<lparr> gameRestart := True \<rparr>
       \<noteq> seedZeroState \<lparr> highScore := max (highScore seedZeroState) (score seedZeroState) \<rparr>"
    by code_simp
  from i r h n show ?thesis by blast
qed

text \<open>
  Claim C9, amended. For every state reachable from the initial state by any sequence of
  inputs, the restart returns the initial state except for the \<open>gameRestart\<close> flag, which
  is set, and the high score, which is the larger of the prior high score and the prior
  score: the code carries the prior high score over, and in a reachable state the score
  never exceeds it.
\<close>

theorem restart_keeps_high_score:
  assumes "reachable seed s" and "INITIAL_STATE seed = Inr ini"
  shows "handleInput ini s (MouseEvent RestartButton)
           = Some (Inr (ini \<lparr> gameRestart := True, highScore := max (highScore s) (score s) \<rparr>))
         \<and> score s \<le> highScore s"
proof -
  from reachable_scoresOrdered [OF assms(1)] have "score s \<le> highScore s"
    by (simp add: scoresOrdered_def)
  then show ?thesis
    by (simp add: handleInput_def isMovement_def isPause_def isRestart_def max_def)
qed

text \<open>The amended claim at the state reached from the initial state of seed 0 by a click
  on Pause.\<close>

theorem restart_keeps_high_score_witness:
  "handleInput seedZeroState seedZeroPaused (MouseEvent RestartButton)
     = Some (Inr (seedZeroState \<lparr> gameRestart := True, highScore := 0 \<rparr>))
   \<and> score seedZeroPaused \<le> highScore seedZeroPaused"
proof -
  have i: "INITIAL_STATE 0 = Inr seedZeroState" by code_simp
  have r0: "reachable 0 seedZeroState" by (rule reachable_init [OF i])
  have p: "handleInput seedZeroState seedZeroState (MouseEvent PauseButton)
             = Some (Inr seedZeroPaused)"
    by code_simp
  have r1: "reachable 0 seedZeroPaused" by (rule reachable_step [OF r0 i p])
  have m: "max (highScore seedZeroPaused) (score seedZeroPaused) = 0"
    by (simp add: seedZeroPaused_def seedZeroState_def stateWith_def)
  from restart_keeps_high_score [OF r1 i] show ?thesis unfolding m .
qed

section \<open>The states of a run\<close>

text \<open>Legality depends on the anchor and the shape only, and every piece is legal where
  it is spawned: its cells are above the grid and between the walls.\<close>

lemma legal_cong:
  "x t = x u \<Longrightarrow> y t = y u \<Longrightarrow> shape t = shape u \<Longrightarrow> legal t g = legal u g"
  by (simp add: legal_def)

lemma legal_above:
  assumes "x t = Num xi" and "y t = Num (- 2)"
    and "shape t \<in> {[[c0, c0, c0, c0], [c1, c1, c1, c1], [c0, c0, c0, c0], [c0, c0, c0, c0]],
                    [[c1, c0, c0], [c1, c1, c1], [c0, c0, c0]],
                    [[c0, c0, c1], [c1, c1, c1], [c0, c0, c0]],
                    [[c1, c1], [c1, c1]],
                    [[c0, c1, c1], [c1, c1, c0], [c0, c0, c0]],
                    [[c0, c1, c0], [c1, c1, c1], [c0, c0, c0]],
                    [[c1, c1, c0], [c0, c1, c1], [c0, c0, c0]]}"
    and "xi = 3 \<or> xi = 4"
  shows "legal t g"
  using assms
  by (auto simp: legal_def isCollision_def isOutOfBounds_def Let_def GRID_WIDTH_def GRID_HEIGHT_def)

lemma spawned_fields:
  assumes "spawned t"
  shows "\<exists>sh sx. TetrominoShapes (key t) = Some sh \<and> spawnX sh = Inr sx
           \<and> orientation t = 0 \<and> shape t = sh \<and> x t = sx \<and> y t = Num (- 2)"
proof -
  from assms obtain sh sx where a: "TetrominoShapes (key t) = Some sh" "spawnX sh = Inr sx"
    and e: "t \<lparr> orientation := INITIAL_ORIENTATION, shape := sh, x := sx, y := Num (- 2) \<rparr> = t"
    by (auto simp: spawned_def resetPosition_def split: option.splits sum.splits)
  have "orientation t = 0" using arg_cong [OF e, of orientation]
    by (simp add: INITIAL_ORIENTATION_def)
  moreover have "shape t = sh" using arg_cong [OF e, of shape] by simp
  moreover have "x t = sx" using arg_cong [OF e, of x] by simp
  moreover have "y t = Num (- 2)" using arg_cong [OF e, of y] by simp
  ultimately show ?thesis using a by blast
qed

lemma spawned_facts:
  assumes "spawned t"
  shows "(\<exists>xi. x t = Num xi) \<and> y t = Num (- 2) \<and> key t \<in> set tetrominoKeys
         \<and> shape t \<noteq> [] \<and> isSquare (shape t) \<and> length (shape t) \<le> 4
         \<and> (key t = ''O'' \<longrightarrow> shape t = [[c1, c1], [c1, c1]])
         \<and> orientation t = 0 \<and> legal t g"
proof -
  from spawned_fields [OF assms] obtain sh sx where
    a: "TetrominoShapes (key t) = Some sh" "spawnX sh = Inr sx"
    and f: "orientation t = 0" "shape t = sh" "x t = sx" "y t = Num (- 2)" by blast
  from a(1) have k: "key t \<in> set tetrominoKeys"
    by (auto simp: TetrominoShapes_def tetrominoKeys_def split: if_splits)
  from a have sq: "sh \<noteq> [] \<and> isSquare sh \<and> length sh \<le> 4
      \<and> (key t = ''O'' \<longrightarrow> sh = [[c1, c1], [c1, c1]]) \<and> (sx = Num 3 \<or> sx = Num 4)"
    by (auto simp: TetrominoShapes_def isSquare_def spawnX_def GRID_WIDTH_def split: if_splits)
  from a(1) have mem: "sh \<in> {[[c0, c0, c0, c0], [c1, c1, c1, c1], [c0, c0, c0, c0], [c0, c0, c0, c0]],
                    [[c1, c0, c0], [c1, c1, c1], [c0, c0, c0]],
                    [[c0, c0, c1], [c1, c1, c1], [c0, c0, c0]],
                    [[c1, c1], [c1, c1]],
                    [[c0, c1, c1], [c1, c1, c0], [c0, c0, c0]],
                    [[c0, c1, c0], [c1, c1, c1], [c0, c0, c0]],
                    [[c1, c1, c0], [c0, c1, c1], [c0, c0, c0]]}"
    by (auto simp: TetrominoShapes_def split: if_splits)
  from sq obtain xi where xi: "sx = Num xi" "xi = 3 \<or> xi = 4" by auto
  have "legal t g"
    by (rule legal_above [of t xi]) (use f xi mem in auto)
  with f k sq xi show ?thesis by auto
qed

lemma getRandomTetromino_spawned: "getRandomTetromino r = Inr t \<Longrightarrow> spawned t"
  by (auto simp: getRandomTetromino_def spawned_def resetPosition_def Let_def INITIAL_ORIENTATION_def
        split: option.splits sum.splits)

lemma resetPosition_spawned: "resetPosition t = Inr c \<Longrightarrow> spawned c"
  by (auto simp: spawned_def resetPosition_def split: option.splits sum.splits)

text \<open>A shape that is legal at one row and not at a lower one reaches into the grid at the
  lower one: above the grid only the walls can stop it, and they stop it at every row.\<close>

lemma collides_iff:
  "collides px py sh g \<longleftrightarrow>
     (\<exists>r<length sh. \<exists>c<length (sh ! r). cellHits px py g r c (sh ! r ! c))"
  unfolding collides_def some_i_iff by auto

lemma cellHits_above:
  assumes "yy + int r < 0"
  shows "cellHits px (Num yy) g r c cell \<longleftrightarrow>
           (cell = Num 1 \<and> (js_lt (js_add px (Num (int c))) (Num 0)
                            \<or> js_ge (js_add px (Num (int c))) (Num (int GRID_WIDTH))))"
  using assms by (auto simp: cellHits_def Let_def)

lemma legal_tall:
  assumes "GRID_HEIGHT \<le> length g"
  shows "legal t g \<longleftrightarrow> \<not> collides (x t) (y t) (shape t) g \<and> \<not> isOutOfBounds (x t) (y t) (shape t)"
  by (simp add: legal_def isCollision_tall [OF assms])

lemma legal_lift:
  assumes tall: "GRID_HEIGHT \<le> length g"
    and up: "legal (t \<lparr> y := Num ya \<rparr>) g"
    and down: "\<not> legal (t \<lparr> y := Num yb \<rparr>) g"
    and le: "ya \<le> yb"
  shows "0 < yb + int (length (shape t))"
proof (rule ccontr)
  assume "\<not> 0 < yb + int (length (shape t))"
  then have b: "yb + int r < 0" if "r < length (shape t)" for r using that by simp
  then have a: "ya + int r < 0" if "r < length (shape t)" for r using that le by fastforce
  have c: "collides (x t) (Num yb) (shape t) g \<longleftrightarrow> collides (x t) (Num ya) (shape t) g"
    unfolding collides_iff using cellHits_above [OF a] cellHits_above [OF b] by blast
  have fa: "\<not> js_ge (js_add (Num ya) (Num (int r))) (Num (int GRID_HEIGHT))"
    if "r < length (shape t)" for r using a [OF that] by simp
  have fb: "\<not> js_ge (js_add (Num yb) (Num (int r))) (Num (int GRID_HEIGHT))"
    if "r < length (shape t)" for r using b [OF that] by simp
  have o: "isOutOfBounds (x t) (Num yb) (shape t) \<longleftrightarrow> isOutOfBounds (x t) (Num ya) (shape t)"
    unfolding isOutOfBounds_iff using fa fb by blast
  from up down show False by (simp add: legal_tall [OF tall] c o)
qed

text \<open>The candidate lists of the kinds other than O are ordered in the sense above.\<close>

lemma orderedKicks_I: "0 \<le> ori \<Longrightarrow> ori < 4 \<Longrightarrow> orderedKicks (kickI ! nat ori)"
  by (drule (1) four_cases) (auto simp: kickI_def orderedKicks_def split: if_splits)

lemma orderedKicks_JLSTZ: "0 \<le> ori \<Longrightarrow> ori < 4 \<Longrightarrow> orderedKicks (kickJLSTZ ! nat ori)"
  by (drule (1) four_cases) (auto simp: kickJLSTZ_def orderedKicks_def split: if_splits)

lemma kickTests_ordered:
  assumes "kickTests k ori = Some tests" and "k \<noteq> ''O''"
  shows "orderedKicks tests"
proof -
  from assms obtain table where t: "WallKickData k = Some table" "table = kickI \<or> table = kickJLSTZ"
    and i: "js_index table (Num ori) = Some tests"
    by (auto simp: kickTests_def WallKickData_def split: option.splits if_splits)
  from t(2) have "length table = 4" by (auto simp: kickI_def kickJLSTZ_def)
  with i have o: "0 \<le> ori" "ori < 4" and e: "tests = table ! nat ori"
    by (auto split: if_splits)
  from t(2) show ?thesis unfolding e using orderedKicks_I [OF o] orderedKicks_JLSTZ [OF o] by auto
qed

lemma attemptWallKick_Some:
  assumes tall: "GRID_HEIGHT \<le> length g"
    and k: "attemptWallKick cur rot g = Inr (Some kicked)"
  shows "\<exists>tests test. kickTests (key cur) (orientation cur) = Some tests
           \<and> find (\<lambda>test. legal (kickBy rot test) g) tests = Some test
           \<and> kicked = kickBy rot test"
proof (cases "kickTests (key cur) (orientation cur)")
  case None
  then have "attemptWallKick cur rot g = Inl TypeError"
    by (auto simp: attemptWallKick_def kickTests_def simp del: js_index.simps split: option.splits)
  with k show ?thesis by simp
next
  case (Some tests)
  from k [unfolded attemptWallKick_tall [OF tall Some]] Some show ?thesis by auto
qed

text \<open>Each transition of the reducer keeps the invariant. A rotation lifts the piece only
  by a candidate of the table, by two rows at most, and only when the same piece one
  candidate earlier, at the old row, was stopped by the grid; so the anchor never gets
  more than five rows above the grid.\<close>

lemma moveTetromino_wf:
  assumes m: "moveTetromino s dx dy = Inr s'" and wf: "wellFormed s" and dy: "0 \<le> dy"
  shows "wellFormed s'"
proof -
  from wf obtain xi yi where a: "x (currentTetromino s) = Num xi" "y (currentTetromino s) = Num yi"
    "- 5 \<le> yi" by (auto simp: wellFormed_def)
  let ?moved = "(currentTetromino s) \<lparr> x := Num (xi + dx), y := Num (yi + dy) \<rparr>"
  from m a have "s' = s \<or> (s' = s \<lparr> currentTetromino := ?moved \<rparr> \<and> legal ?moved (grid s))"
    by (auto simp: moveTetromino_def Let_def legal_def split: sum.splits if_splits)
  then show ?thesis
  proof
    assume "s' = s" with wf show ?thesis by simp
  next
    assume "s' = s \<lparr> currentTetromino := ?moved \<rparr> \<and> legal ?moved (grid s)"
    with wf a dy show ?thesis by (simp add: wellFormed_def)
  qed
qed

lemma rotate_O: "rotateMatrix [[c1, c1], [c1, c1]] = Inr [[c1, c1], [c1, c1]]"
  by (simp add: rotateMatrix_def js_nth_def upt_rec)

lemma wellFormed_placed:
  assumes wf: "wellFormed s"
    and k: "key k = key (currentTetromino s)" "x k = Num xi" "y k = Num yi" "- 5 \<le> yi"
       "legal k (grid s)" "shape k \<noteq> []" "isSquare (shape k)" "length (shape k) \<le> 4"
       "key k = ''O'' \<longrightarrow> shape k = [[c1, c1], [c1, c1]]"
       "0 \<le> orientation k" "orientation k < 4"
  shows "wellFormed (s \<lparr> currentTetromino := k \<rparr>)"
  using assms by (simp add: wellFormed_def)

lemma rotateTetromino_wf:
  assumes r: "rotateTetromino s = Inr s'" and wf: "wellFormed s"
  shows "wellFormed s'"
proof -
  let ?t = "currentTetromino s"
  from wf obtain xi yi where a: "x ?t = Num xi" "y ?t = Num yi" "- 5 \<le> yi"
    by (auto simp: wellFormed_def)
  from wf have tall: "GRID_HEIGHT \<le> length (grid s)" and lg: "legal ?t (grid s)"
    and ne: "shape ?t \<noteq> []" and sq: "\<forall>row\<in>set (shape ?t). length row = length (shape ?t)"
    and len: "length (shape ?t) \<le> 4"
    and O: "key ?t = ''O'' \<longrightarrow> shape ?t = [[c1, c1], [c1, c1]]"
    and o: "0 \<le> orientation ?t" "orientation ?t < 4"
    by (auto simp: wellFormed_def isSquare_def list_all_iff)
  from rotateMatrix_square [OF ne sq] obtain rsh where
    rm: "rotateMatrix (shape ?t) = Inr rsh" and rne: "rsh \<noteq> []"
    and rl: "length rsh = length (shape ?t)"
    and rsq: "\<forall>row\<in>set rsh. length row = length rsh" by blast
  define rot where "rot = ?t \<lparr> orientation := js_rem (orientation ?t + 1) 4, shape := rsh \<rparr>"
  note u = rotateTetromino_unfold [OF rm tall rot_def]
  have rO: "key ?t = ''O'' \<Longrightarrow> rsh = [[c1, c1], [c1, c1]]"
    using O rm rotate_O by simp
  have ro: "0 \<le> js_rem (orientation ?t + 1) 4" "js_rem (orientation ?t + 1) 4 < 4"
    using o by (simp_all add: js_rem_4)
  have placed: "wellFormed (s \<lparr> currentTetromino := rot \<lparr> x := Num x', y := Num y' \<rparr> \<rparr>)"
    if "legal (rot \<lparr> x := Num x', y := Num y' \<rparr>) (grid s)" "- 5 \<le> y'" for x' y'
    by (rule wellFormed_placed [OF wf, of _ x' y'])
       (use that rne rsq rl len rO ro in \<open>simp_all add: rot_def isSquare_def list_all_iff\<close>)
  have same: "rot \<lparr> x := Num xi, y := Num yi \<rparr> = rot" using a by (simp add: rot_def)
  show ?thesis
  proof (cases "legal rot (grid s)")
    case True
    with r u have "s' = s \<lparr> currentTetromino := rot \<rparr>" by simp
    with placed [where x' = xi and y' = yi] True a(3) same show ?thesis by simp
  next
    case False
    have notO: "key ?t \<noteq> ''O''"
    proof
      assume "key ?t = ''O''"
      with rO O have "shape rot = shape ?t" by (simp add: rot_def)
      then have "legal rot (grid s) = legal ?t (grid s)"
        by (intro legal_cong) (simp_all add: rot_def)
      with lg False show False by simp
    qed
    show ?thesis
    proof (cases "attemptWallKick ?t rot (grid s)")
      case (Inl e)
      with r u False show ?thesis by simp
    next
      case (Inr res)
      show ?thesis
      proof (cases res)
        case None
        with r u False Inr have "s' = s" by simp
        with wf show ?thesis by simp
      next
        case (Some kicked)
        with r u False Inr have s': "s' = s \<lparr> currentTetromino := kicked \<rparr>" by simp
        from attemptWallKick_Some [OF tall] Inr Some obtain tests test where
          kt: "kickTests (key ?t) (orientation ?t) = Some tests"
          and f: "find (\<lambda>test. legal (kickBy rot test) (grid s)) tests = Some test"
          and kk: "kicked = kickBy rot test" by blast
        from kickTests_ordered [OF kt notO] f obtain dx dy where
          t: "test = [Num dx, Num dy]" and dy: "- 2 \<le> dy"
          and before: "dy < 0 \<longrightarrow> dx = 0 \<or> \<not> legal (kickBy rot [Num dx, Num 0]) (grid s)"
          unfolding orderedKicks_def by blast
        have kb: "kickBy rot [Num u, Num v] = rot \<lparr> x := Num (xi + u), y := Num (yi + v) \<rparr>" for u v
          using a by (simp add: kickBy_def js_nth_def rot_def)
        from f have lk: "legal (kickBy rot test) (grid s)" by (auto simp: find_Some_iff)
        have low: "- 5 \<le> yi + dy"
        proof (cases "dy < 0")
          case False
          with a(3) show ?thesis by simp
        next
          case True
          let ?u = "rot \<lparr> x := Num (xi + dx) \<rparr>"
          have up: "legal (?u \<lparr> y := Num (yi + dy) \<rparr>) (grid s)" using lk by (simp add: t kb)
          have down: "\<not> legal (?u \<lparr> y := Num yi \<rparr>) (grid s)"
          proof (cases "dx = 0")
            case True
            then show ?thesis using \<open>\<not> legal rot (grid s)\<close> same by simp
          next
            case False
            with before True have "\<not> legal (kickBy rot [Num dx, Num 0]) (grid s)" by simp
            then show ?thesis by (simp add: kb)
          qed
          from legal_lift [OF tall up down] True have "0 < yi + int (length (shape ?u))" by simp
          then have "0 < yi + 4" using rl len by (simp add: rot_def)
          with dy show ?thesis by simp
        qed
        from placed [where x' = "xi + dx" and y' = "yi + dy"] lk low show ?thesis by (simp add: s' kk t kb)
      qed
    qed
  qed
qed

lemma updateGrid_length: "updateGrid g t = Inr m \<Longrightarrow> length m = length g"
  by (auto simp: updateGrid_def Let_def split: list.splits)

lemma clearCompletedRows_length: "length (fst (clearCompletedRows g)) = length g"
  using sum_length_filter_compl [of rowFull g]
  by (simp add: clearCompletedRows_def Let_def)

lemma wellFormed_spawn:
  assumes "length (grid s) = GRID_HEIGHT" and "spawned (currentTetromino s)"
    and "spawned (nextTetromino s)"
  shows "wellFormed s"
  using assms spawned_facts [OF assms(2), of "grid s"]
  by (auto simp: wellFormed_def)

lemma wellFormed_flags:
  "wellFormed s \<Longrightarrow> wellFormed (s \<lparr> gameEnd := a \<rparr>)"
  "wellFormed s \<Longrightarrow> wellFormed (s \<lparr> gameRestart := b \<rparr>)"
  "wellFormed s \<Longrightarrow> wellFormed (s \<lparr> gamePause := c \<rparr>)"
  "wellFormed s \<Longrightarrow> wellFormed (s \<lparr> highScore := h \<rparr>)"
  by (simp_all add: wellFormed_def)

lemma tick_wf:
  assumes t: "tick s rng = Inr s'" and wf: "wellFormed s"
  shows "wellFormed s'"
proof (cases "isGameEnd s")
  case (Inl e)
  with t show ?thesis by (simp add: tick_def)
next
  case (Inr ended)
  show ?thesis
  proof (cases ended)
    case True
    with t Inr wf show ?thesis by (auto simp: tick_def wellFormed_flags)
  next
    case False
    show ?thesis
    proof (cases "isSettled (currentTetromino s) (grid s)")
      case (Inl e)
      with t Inr False show ?thesis by (simp add: tick_def)
    next
      case st: (Inr settled)
      show ?thesis
      proof (cases settled)
        case True
        from t Inr False st True obtain merged drawn where
          m: "updateGrid (grid s) (currentTetromino s) = Inr merged"
          and d: "getRandomTetromino rng = Inr drawn"
          and s': "grid s' = fst (clearCompletedRows merged)"
             "currentTetromino s' = nextTetromino s" "nextTetromino s' = drawn"
          by (auto simp: tick_def Let_def split: sum.splits)
        have "length (grid s') = GRID_HEIGHT"
          using wf updateGrid_length [OF m] clearCompletedRows_length [of merged]
          by (simp add: s' wellFormed_def)
        moreover have "spawned (currentTetromino s')" using wf by (simp add: s' wellFormed_def)
        moreover have "spawned (nextTetromino s')"
          using getRandomTetromino_spawned [OF d] by (simp add: s')
        ultimately show ?thesis by (rule wellFormed_spawn)
      next
        case nf: False
        show ?thesis
        proof (cases "gamePause s \<or> gameEnd s")
          case True
          with t Inr False st nf wf show ?thesis by (auto simp: tick_def)
        next
          case False
          with t Inr \<open>\<not> ended\<close> st nf obtain moved where
            mv: "moveTetromino s 0 1 = Inr moved" and s': "s' = moved \<lparr> gameRestart := False \<rparr>"
            by (auto simp: tick_def split: sum.splits)
          from moveTetromino_wf [OF mv wf] show ?thesis by (simp add: s' wellFormed_flags)
        qed
      qed
    qed
  qed
qed

lemma holdState_wf:
  assumes h: "holdState s r = Inr s'" and wf: "wellFormed s"
  shows "wellFormed s'"
proof -
  from wf have g: "length (grid s) = GRID_HEIGHT" and n: "spawned (nextTetromino s)"
    by (simp_all add: wellFormed_def)
  from h have "grid s' = grid s
      \<and> (spawned (currentTetromino s') \<or> currentTetromino s' = nextTetromino s)
      \<and> (spawned (nextTetromino s') \<or> nextTetromino s' = nextTetromino s)"
    by (auto simp: holdState_def resetPosition_spawned getRandomTetromino_spawned
          split: option.splits sum.splits)
  with g n show ?thesis by (intro wellFormed_spawn) auto
qed

lemma updateState_wf:
  "updateState s k = Inr s' \<Longrightarrow> wellFormed s \<Longrightarrow> wellFormed s'"
  using moveTetromino_wf rotateTetromino_wf
  by (auto simp: updateState_def split: if_splits)

lemma drop_wf_aux:
  "dropOneStepRecursive s = Some r \<Longrightarrow> wellFormed s \<Longrightarrow>
     (case r of Inl e \<Rightarrow> True | Inr s' \<Rightarrow> wellFormed s')"
proof (induction rule: dropOneStepRecursive.raw_induct [rotated 1, consumes 1])
  case (1 f cs r)
  show ?case
  proof (cases "isSettled (currentTetromino cs) (grid cs)")
    case (Inl e)
    with 1(2) show ?thesis by auto
  next
    case (Inr settled)
    show ?thesis
    proof (cases settled)
      case True
      with 1(2,3) Inr show ?thesis by auto
    next
      case False
      show ?thesis
      proof (cases "moveTetromino cs 0 1")
        case (Inl e)
        with 1(2) Inr False show ?thesis by auto
      next
        case mv: (Inr nextState)
        with 1(2) Inr False have "f nextState = Some r" by simp
        from 1(1) [OF this moveTetromino_wf [OF mv 1(3)]] show ?thesis by simp
      qed
    qed
  qed
qed

lemma hardDrop_wf:
  assumes "hardDrop s r = Some (Inr s')" and "wellFormed s"
  shows "wellFormed s'"
proof -
  from assms(1) obtain d where d: "dropTetromino s = Some (Inr d)" and t: "tick d r = Inr s'"
    by (auto simp: hardDrop_def split: option.splits sum.splits)
  from drop_wf_aux [OF d [unfolded dropTetromino_def] assms(2)] have "wellFormed d" by simp
  with t show ?thesis by (rule tick_wf)
qed

lemma initial_wf: "INITIAL_STATE seed = Inr ini \<Longrightarrow> wellFormed ini"
  by (rule wellFormed_spawn)
     (auto simp: INITIAL_STATE_def getRandomTetromino_spawned split: sum.splits)

lemma handleInput_wf:
  assumes h: "handleInput ini s inp = Some (Inr s')" and wf: "wellFormed s"
    and ini: "wellFormed ini"
  shows "wellFormed s'"
proof (cases inp)
  case (TickRng r)
  then show ?thesis using h wf tick_wf
    by (auto simp: handleInput_def isMovement_def isPause_def isRestart_def isHardDrop_def
          isHold_def split: if_splits)
next
  case (KeyboardEvent k)
  then show ?thesis using h wf updateState_wf [of s k]
    by (auto simp: handleInput_def isMovement_def isPause_def isRestart_def isHardDrop_def
          isHold_def wellFormed_flags split: if_splits sum.splits)
next
  case (MouseEvent b)
  then show ?thesis using h wf ini
    by (cases b) (auto simp: handleInput_def isMovement_def isPause_def isRestart_def
          isHardDrop_def isHold_def wellFormed_flags split: if_splits)
next
  case (DropRng r)
  then show ?thesis using h wf hardDrop_wf
    by (auto simp: handleInput_def isMovement_def isPause_def isRestart_def isHardDrop_def
          isHold_def split: if_splits)
next
  case (HoldRng r)
  then show ?thesis using h wf holdState_wf [of s r]
    by (auto simp: handleInput_def isMovement_def isPause_def isRestart_def isHardDrop_def
          isHold_def wellFormed_flags split: if_splits sum.splits)
qed

lemma reachable_wf: "reachable seed s \<Longrightarrow> wellFormed s"
proof (induction rule: reachable.induct)
  case (reachable_init ini)
  then show ?case by (rule initial_wf)
next
  case (reachable_step s ini inp s')
  then show ?case using handleInput_wf initial_wf by blast
qed

text \<open>A state that the fold of the reducer returns from a state of a run is a state of
  that run; the example states are reached by the runs given with them.\<close>

lemma run_reachable:
  "reachable seed s \<Longrightarrow> INITIAL_STATE seed = Inr ini \<Longrightarrow> run ini s inps = Some (Inr s')
     \<Longrightarrow> reachable seed s'"
proof (induction inps arbitrary: s)
  case Nil
  then show ?case by simp
next
  case (Cons inp inps)
  from Cons.prems(3) obtain s1 where h: "handleInput ini s inp = Some (Inr s1)"
    and r: "run ini s1 inps = Some (Inr s')"
    by (auto split: option.splits sum.splits)
  from reachable_step [OF Cons.prems(1,2) h] have "reachable seed s1" .
  from Cons.IH [OF this Cons.prems(2) r] show ?case .
qed

lemma seedZero_initial: "INITIAL_STATE 0 = Inr seedZeroState"
  by code_simp

lemma seedHalf_initial: "INITIAL_STATE (1 / 2) = Inr (stateWith emptyGrid pieceO pieceO)"
  by code_simp

lemma wedged_reachable: "reachable 0 wedgedState"
proof -
  have "run seedZeroState seedZeroState wedgeRun = Some (Inr wedgedState)" by code_simp
  from run_reachable [OF reachable_init [OF seedZero_initial] seedZero_initial this]
  show ?thesis .
qed

lemma lifted_reachable: "reachable 0 liftedState"
proof -
  have "run seedZeroState seedZeroState liftRun = Some (Inr liftedState)" by code_simp
  from run_reachable [OF reachable_init [OF seedZero_initial] seedZero_initial this]
  show ?thesis .
qed

lemma cornerO_reachable: "reachable (1 / 2) cornerOState"
proof -
  have "run (stateWith emptyGrid pieceO pieceO) (stateWith emptyGrid pieceO pieceO) cornerORun
          = Some (Inr cornerOState)" by code_simp
  from run_reachable [OF reachable_init [OF seedHalf_initial] seedHalf_initial this]
  show ?thesis .
qed

lemma restingI_reachable: "reachable 0 restingIState"
proof -
  have "run seedZeroState seedZeroState (replicate 20 (TickRng 0)) = Some (Inr restingIState)"
    by code_simp
  from run_reachable [OF reachable_init [OF seedZero_initial] seedZero_initial this]
  show ?thesis .
qed

section \<open>Rotation in a run\<close>

text \<open>
  Claim C4 says that the wall-kick entry of the O kind is an empty list of candidates, so
  that an O piece whose in-place rotation is illegal tries no candidate and the state is
  returned unchanged. As stated it fails: the table of types.ts has \<open>[[[]]]\<close> there. At
  orientation 0 that is the list of one candidate, the empty array: its two offsets are
  \<open>undefined\<close>, the kicked anchor is \<open>(NaN, NaN)\<close>, no comparison with \<open>NaN\<close> holds, so the
  placement passes both tests and is applied, and the state changes. At the other
  orientations the entry is missing and \<open>rotateTetromino\<close> throws. The state is an O piece
  whose right column is outside the grid; no run reaches such a state, as the theorem
  after this one shows.
\<close>

theorem O_kick_entry_not_empty:
  "WallKickData ''O'' = Some [[[]]]
   \<and> kickTests ''O'' 0 = Some [[]]
   \<and> kickTests ''O'' 1 = None
   \<and> \<not> legal (currentTetromino wallOState) (grid wallOState)
   \<and> rotateTetromino wallOState
       = Inr (wallOState \<lparr> currentTetromino :=
                pieceO \<lparr> orientation := 1, x := NaN, y := NaN \<rparr> \<rparr>)
   \<and> rotateTetromino wallOState \<noteq> Inr wallOState
   \<and> rotateTetromino (wallOState \<lparr> currentTetromino :=
                pieceO \<lparr> orientation := 1, x := Num 9, y := Num 0 \<rparr> \<rparr>)
       = Inl TypeError"
  by code_simp

text \<open>
  Claim C4, amended. In every state reachable from the initial state whose active piece is
  of the O kind, the quarter turn leaves the shape as it is and the rotated piece is legal
  where it stands. So \<open>rotateTetromino\<close> attempts no kick offset, the wall-kick entry of O
  is not read, and the state returned is the state it was given with the orientation of
  the piece advanced by 1 modulo 4: anchor, shape and every other field are unchanged.
\<close>

theorem rotate_O_in_place:
  assumes "reachable seed s" and "key (currentTetromino s) = ''O''"
  shows "rotateMatrix (shape (currentTetromino s)) = Inr (shape (currentTetromino s))
     \<and> legal ((currentTetromino s)
                \<lparr> orientation := (orientation (currentTetromino s) + 1) mod 4 \<rparr>) (grid s)
     \<and> rotateTetromino s
         = Inr (s \<lparr> currentTetromino := (currentTetromino s)
                      \<lparr> orientation := (orientation (currentTetromino s) + 1) mod 4 \<rparr> \<rparr>)"
proof -
  let ?t = "currentTetromino s"
  from reachable_wf [OF assms(1)] have wf: "wellFormed s" .
  then have tall: "GRID_HEIGHT \<le> length (grid s)" and lg: "legal ?t (grid s)"
    and sh: "shape ?t = [[c1, c1], [c1, c1]]" and o: "0 \<le> orientation ?t"
    using assms(2) by (auto simp: wellFormed_def)
  have rm: "rotateMatrix (shape ?t) = Inr (shape ?t)" unfolding sh by (rule rotate_O)
  define rot where "rot = ?t \<lparr> orientation := (orientation ?t + 1) mod 4 \<rparr>"
  have rot': "rot = ?t \<lparr> orientation := js_rem (orientation ?t + 1) 4, shape := shape ?t \<rparr>"
    using o by (simp add: rot_def js_rem_4)
  have l: "legal rot (grid s)"
    using lg legal_cong [of rot ?t "grid s"] by (simp add: rot_def)
  from rotateTetromino_unfold [OF rm tall rot'] l
  have "rotateTetromino s = Inr (s \<lparr> currentTetromino := rot \<rparr>)" by simp
  with rm l show ?thesis unfolding rot_def by blast
qed

text \<open>The amended claim at an O piece in the two rightmost columns, at orientation 1, for
  which the table has no entry.\<close>

theorem rotate_O_in_place_witness:
  "reachable (1 / 2) cornerOState
   \<and> rotateTetromino cornerOState
       = Inr (cornerOState \<lparr> currentTetromino := pieceO \<lparr> orientation := 2, x := Num 8 \<rparr> \<rparr>)"
proof -
  have k: "key (currentTetromino cornerOState) = ''O''" by code_simp
  have e: "(currentTetromino cornerOState)
             \<lparr> orientation := (orientation (currentTetromino cornerOState) + 1) mod 4 \<rparr>
           = pieceO \<lparr> orientation := 2, x := Num 8 \<rparr>"
    by code_simp
  from rotate_O_in_place [OF cornerO_reachable k] cornerO_reachable show ?thesis
    unfolding e by blast
qed

text \<open>The entries of the kinds other than O are lists of pairs of integers: the two tables
  of types.ts, written with pairs.\<close>

lemma find_map_eq: "find P (map f xs) = map_option f (find (\<lambda>a. P (f a)) xs)"
  by (induction xs) auto

lemma kickI_pairs:
  "kickI = map (map offsetPair)
     [[(- 2, 0), (1, 0), (- 2, 1), (1, - 2)], [(- 1, 0), (2, 0), (- 1, - 2), (2, 1)],
      [(2, 0), (- 1, 0), (2, - 1), (- 1, 2)], [(1, 0), (- 2, 0), (1, 2), (- 2, - 1)]]"
  by (simp add: kickI_def offsetPair_def)

lemma kickJLSTZ_pairs:
  "kickJLSTZ = map (map offsetPair)
     [[(- 1, 0), (- 1, - 1), (0, 2), (- 1, 2)], [(1, 0), (1, 1), (0, - 2), (1, - 2)],
      [(1, 0), (1, - 1), (0, 2), (1, 2)], [(- 1, 0), (- 1, 1), (0, - 2), (- 1, - 2)]]"
  by (simp add: kickJLSTZ_def offsetPair_def)

lemma js_index_pairs:
  assumes "table = map (map f) offsetTable" and "0 \<le> ori" and "nat ori < length offsetTable"
  shows "js_index table (Num ori) = Some (map f (offsetTable ! nat ori))"
  using assms by simp

lemma kickTests_pairs:
  assumes k: "k \<in> set tetrominoKeys" "k \<noteq> ''O''" and o: "0 \<le> ori" "ori < 4"
  shows "\<exists>offsets. kickTests k ori = Some (map offsetPair offsets)"
proof -
  from k have "WallKickData k = Some kickI \<or> WallKickData k = Some kickJLSTZ"
    by (auto simp: tetrominoKeys_def WallKickData_def)
  then show ?thesis
  proof
    assume w: "WallKickData k = Some kickI"
    have "js_index kickI (Num ori) = Some (map offsetPair
       ([[(- 2, 0), (1, 0), (- 2, 1), (1, - 2)], [(- 1, 0), (2, 0), (- 1, - 2), (2, 1)],
         [(2, 0), (- 1, 0), (2, - 1), (- 1, 2)], [(1, 0), (- 2, 0), (1, 2), (- 2, - 1)]] ! nat ori))"
      by (rule js_index_pairs [OF kickI_pairs o(1)]) (use o in simp)
    then show ?thesis by (simp add: kickTests_def w del: js_index.simps) blast
  next
    assume w: "WallKickData k = Some kickJLSTZ"
    have "js_index kickJLSTZ (Num ori) = Some (map offsetPair
       ([[(- 1, 0), (- 1, - 1), (0, 2), (- 1, 2)], [(1, 0), (1, 1), (0, - 2), (1, - 2)],
         [(1, 0), (1, - 1), (0, 2), (1, 2)], [(- 1, 0), (- 1, 1), (0, - 2), (- 1, - 2)]] ! nat ori))"
      by (rule js_index_pairs [OF kickJLSTZ_pairs o(1)]) (use o in simp)
    then show ?thesis by (simp add: kickTests_def w del: js_index.simps) blast
  qed
qed

lemma kickBy_offsetPair:
  assumes "x rot = Num xi" and "y rot = Num yi"
  shows "kickBy rot (offsetPair p) = rot \<lparr> x := Num (xi + fst p), y := Num (yi + snd p) \<rparr>"
  using assms by (simp add: kickBy_def offsetPair_def js_nth_def)

lemma offsetPair_inj: "inj offsetPair"
  by (auto simp: inj_on_def offsetPair_def prod_eq_iff)

text \<open>
  Claim C5 speaks of every state. As stated it fails: on a state whose active piece has a
  shape without rows, \<open>rotateMatrix\<close> reads \<open>matrix[0].map\<close> of \<open>undefined\<close>, and
  \<open>rotateTetromino\<close> throws instead of returning a state.
\<close>

theorem rotate_shapeless_counterexample:
  "rotateTetromino shapelessState = Inl TypeError"
  by code_simp

text \<open>
  Claim C5, amended. For every state reachable from the initial state, with the active
  piece anchored at \<open>(xi, yi)\<close>: its shape is square and \<open>rotateMatrix\<close> returns the square of
  the same size whose row \<open>i\<close> is column \<open>i\<close> of the shape read from the bottom up, the
  quarter turn clockwise. The rotated piece has that shape and the orientation advanced
  by 1 modulo 4. When it is legal at \<open>(xi, yi)\<close>, \<open>rotateTetromino\<close> returns the state with
  it as the active piece, anchored where it was: no candidate of the table is applied,
  and the result is the same for a kind without an entry. When it is not, the table has an
  entry for the kind of the piece and the orientation before the rotation, which is a
  list of pairs of integer offsets \<open>(dx, dy)\<close>; the pairs are tried in the listed order, and
  \<open>rotateTetromino\<close> returns the state with the rotated piece anchored at
  \<open>(xi + dx, yi + dy)\<close> for the first pair that makes this placement legal, and the state
  as it was given when no pair does.
\<close>

theorem rotateTetromino_kicks:
  assumes "reachable seed s"
  shows "\<exists>xi yi rotatedShape.
       x (currentTetromino s) = Num xi \<and> y (currentTetromino s) = Num yi
     \<and> isSquare (shape (currentTetromino s))
     \<and> rotateMatrix (shape (currentTetromino s)) = Inr rotatedShape
     \<and> length rotatedShape = length (shape (currentTetromino s))
     \<and> isSquare rotatedShape
     \<and> (\<forall>i<length (shape (currentTetromino s)). \<forall>j<length (shape (currentTetromino s)).
          rotatedShape ! i ! j
            = shape (currentTetromino s) ! (length (shape (currentTetromino s)) - 1 - j) ! i)
     \<and> (let rot = (currentTetromino s)
                    \<lparr> orientation := (orientation (currentTetromino s) + 1) mod 4,
                      shape := rotatedShape \<rparr>
        in if legal rot (grid s) then rotateTetromino s = Inr (s \<lparr> currentTetromino := rot \<rparr>)
           else (\<exists>offsets.
                   kickTests (key (currentTetromino s)) (orientation (currentTetromino s))
                     = Some (map offsetPair offsets)
                 \<and> rotateTetromino s =
                     Inr (case find (\<lambda>(dx, dy). legal (rot \<lparr> x := Num (xi + dx),
                                                            y := Num (yi + dy) \<rparr>) (grid s))
                                 offsets of
                            None \<Rightarrow> s
                          | Some (dx, dy) \<Rightarrow>
                              s \<lparr> currentTetromino := rot \<lparr> x := Num (xi + dx),
                                                           y := Num (yi + dy) \<rparr> \<rparr>)))"
proof -
  let ?t = "currentTetromino s"
  from reachable_wf [OF assms] have wf: "wellFormed s" .
  then obtain xi yi where a: "x ?t = Num xi" "y ?t = Num yi"
    by (auto simp: wellFormed_def)
  from wf have tall: "GRID_HEIGHT \<le> length (grid s)" and lg: "legal ?t (grid s)"
    and ne: "shape ?t \<noteq> []" and sq: "\<forall>row\<in>set (shape ?t). length row = length (shape ?t)"
    and isq: "isSquare (shape ?t)"
    and k: "key ?t \<in> set tetrominoKeys"
    and O: "key ?t = ''O'' \<longrightarrow> shape ?t = [[c1, c1], [c1, c1]]"
    and o: "0 \<le> orientation ?t" "orientation ?t < 4"
    by (auto simp: wellFormed_def isSquare_def list_all_iff)
  from rotateMatrix_square [OF ne sq] obtain rsh where
    rm: "rotateMatrix (shape ?t) = Inr rsh"
    and rl: "length rsh = length (shape ?t)"
    and rsq: "\<forall>row\<in>set rsh. length row = length rsh"
    and cells: "\<forall>i<length (shape ?t). \<forall>j<length (shape ?t).
                  rsh ! i ! j = shape ?t ! (length (shape ?t) - 1 - j) ! i" by blast
  have risq: "isSquare rsh" using rsq by (simp add: isSquare_def list_all_iff)
  define rot where "rot = ?t \<lparr> orientation := (orientation ?t + 1) mod 4, shape := rsh \<rparr>"
  have rot': "rot = ?t \<lparr> orientation := js_rem (orientation ?t + 1) 4, shape := rsh \<rparr>"
    using o by (simp add: rot_def js_rem_4)
  have rxy: "x rot = Num xi" "y rot = Num yi" using a by (simp_all add: rot_def)
  note u = rotateTetromino_unfold [OF rm tall rot']
  have branch: "if legal rot (grid s) then rotateTetromino s = Inr (s \<lparr> currentTetromino := rot \<rparr>)
           else (\<exists>offsets.
                   kickTests (key ?t) (orientation ?t) = Some (map offsetPair offsets)
                 \<and> rotateTetromino s =
                     Inr (case find (\<lambda>(dx, dy). legal (rot \<lparr> x := Num (xi + dx),
                                                            y := Num (yi + dy) \<rparr>) (grid s))
                                 offsets of
                            None \<Rightarrow> s
                          | Some (dx, dy) \<Rightarrow>
                              s \<lparr> currentTetromino := rot \<lparr> x := Num (xi + dx),
                                                           y := Num (yi + dy) \<rparr> \<rparr>))"
  proof (cases "legal rot (grid s)")
    case True
    then show ?thesis by (simp add: u)
  next
    case False
    have notO: "key ?t \<noteq> ''O''"
    proof
      assume kO: "key ?t = ''O''"
      with O rm rotate_O have "rsh = shape ?t" by simp
      then have "legal rot (grid s) = legal ?t (grid s)"
        by (intro legal_cong) (simp_all add: rot_def)
      with lg False show False by simp
    qed
    from kickTests_pairs [OF k notO o] obtain offsets where
      kt: "kickTests (key ?t) (orientation ?t) = Some (map offsetPair offsets)" by blast
    have "attemptWallKick ?t rot (grid s)
            = Inr (map_option (kickBy rot)
                     (find (\<lambda>test. legal (kickBy rot test) (grid s)) (map offsetPair offsets)))"
      by (rule attemptWallKick_tall [OF tall kt])
    also have "find (\<lambda>test. legal (kickBy rot test) (grid s)) (map offsetPair offsets)
            = map_option offsetPair
                (find (\<lambda>p. legal (rot \<lparr> x := Num (xi + fst p), y := Num (yi + snd p) \<rparr>) (grid s))
                   offsets)"
      by (simp add: find_map_eq kickBy_offsetPair [OF rxy])
    finally have awk: "attemptWallKick ?t rot (grid s)
            = Inr (map_option (\<lambda>p. rot \<lparr> x := Num (xi + fst p), y := Num (yi + snd p) \<rparr>)
                (find (\<lambda>p. legal (rot \<lparr> x := Num (xi + fst p), y := Num (yi + snd p) \<rparr>) (grid s))
                   offsets))"
      by (simp add: option.map_comp comp_def kickBy_offsetPair [OF rxy])
    have "rotateTetromino s =
            Inr (case find (\<lambda>(dx, dy). legal (rot \<lparr> x := Num (xi + dx),
                                                   y := Num (yi + dy) \<rparr>) (grid s))
                        offsets of
                   None \<Rightarrow> s
                 | Some (dx, dy) \<Rightarrow>
                     s \<lparr> currentTetromino := rot \<lparr> x := Num (xi + dx),
                                                  y := Num (yi + dy) \<rparr> \<rparr>)"
      using False by (simp add: u awk case_prod_unfold split: option.splits)
    with kt False show ?thesis by auto
  qed
  from a isq rm rl risq cells branch show ?thesis
    unfolding Let_def rot_def by blast
qed

text \<open>The amended claim at the T piece against the left wall, beside the full column: the
  turned piece would leave the grid on the left; of the candidates \<open>(1, 0)\<close>, \<open>(1, 1)\<close>,
  \<open>(0, -2)\<close> and \<open>(1, -2)\<close> the first two put it on the full column, the third leaves it
  outside, and the fourth is applied: the piece goes from \<open>(-1, -2)\<close> to \<open>(0, -4)\<close>.\<close>

theorem rotateTetromino_kicks_witness:
  "reachable 0 wedgedState
   \<and> rotateTetromino wedgedState = Inr (wedgedState \<lparr> currentTetromino := liftedT \<rparr>)"
proof -
  define rot where "rot = (currentTetromino wedgedState)
       \<lparr> orientation := (orientation (currentTetromino wedgedState) + 1) mod 4,
         shape := shape liftedT \<rparr>"
  from rotateTetromino_kicks [OF wedged_reachable] obtain xi yi rotatedShape where
    a: "x (currentTetromino wedgedState) = Num xi" "y (currentTetromino wedgedState) = Num yi"
    and r: "rotateMatrix (shape (currentTetromino wedgedState)) = Inr rotatedShape"
    and b: "let rot = (currentTetromino wedgedState)
                    \<lparr> orientation := (orientation (currentTetromino wedgedState) + 1) mod 4,
                      shape := rotatedShape \<rparr>
        in if legal rot (grid wedgedState)
           then rotateTetromino wedgedState = Inr (wedgedState \<lparr> currentTetromino := rot \<rparr>)
           else (\<exists>offsets.
                   kickTests (key (currentTetromino wedgedState))
                       (orientation (currentTetromino wedgedState))
                     = Some (map offsetPair offsets)
                 \<and> rotateTetromino wedgedState =
                     Inr (case find (\<lambda>(dx, dy). legal (rot \<lparr> x := Num (xi + dx),
                                                            y := Num (yi + dy) \<rparr>) (grid wedgedState))
                                 offsets of
                            None \<Rightarrow> wedgedState
                          | Some (dx, dy) \<Rightarrow>
                              wedgedState \<lparr> currentTetromino := rot \<lparr> x := Num (xi + dx),
                                                           y := Num (yi + dy) \<rparr> \<rparr>))"
    by blast
  have "x (currentTetromino wedgedState) = Num (- 1)" by code_simp
  with a have xi: "xi = - 1" by simp
  have "y (currentTetromino wedgedState) = Num (- 2)" by code_simp
  with a have yi: "yi = - 2" by simp
  have "rotateMatrix (shape (currentTetromino wedgedState)) = Inr (shape liftedT)" by code_simp
  with r have rsh: "rotatedShape = shape liftedT" by simp
  have nl: "\<not> legal rot (grid wedgedState)" unfolding rot_def by code_simp
  from b [unfolded Let_def rsh xi yi, folded rot_def] nl obtain offsets where
    kt: "kickTests (key (currentTetromino wedgedState)) (orientation (currentTetromino wedgedState))
           = Some (map offsetPair offsets)"
    and res: "rotateTetromino wedgedState =
                Inr (case find (\<lambda>(dx, dy). legal (rot \<lparr> x := Num (- 1 + dx),
                                                       y := Num (- 2 + dy) \<rparr>) (grid wedgedState))
                            offsets of
                       None \<Rightarrow> wedgedState
                     | Some (dx, dy) \<Rightarrow>
                         wedgedState \<lparr> currentTetromino := rot \<lparr> x := Num (- 1 + dx),
                                                      y := Num (- 2 + dy) \<rparr> \<rparr>)"
    by auto
  have "kickTests (key (currentTetromino wedgedState)) (orientation (currentTetromino wedgedState))
          = Some (map offsetPair [(1, 0), (1, 1), (0, - 2), (1, - 2)])"
    by code_simp
  with kt have "map offsetPair offsets = map offsetPair [(1, 0), (1, 1), (0, - 2), (1, - 2)]"
    by simp
  then have off: "offsets = [(1, 0), (1, 1), (0, - 2), (1, - 2)]"
    by (rule map_injective) (rule offsetPair_inj)
  have "Inr (case find (\<lambda>(dx, dy). legal (rot \<lparr> x := Num (- 1 + dx),
                                                       y := Num (- 2 + dy) \<rparr>) (grid wedgedState))
                            [(1, 0), (1, 1), (0, - 2), (1, - 2)] of
                       None \<Rightarrow> wedgedState
                     | Some (dx, dy) \<Rightarrow>
                         wedgedState \<lparr> currentTetromino := rot \<lparr> x := Num (- 1 + dx),
                                                      y := Num (- 2 + dy) \<rparr> \<rparr>)
        = (Inr (wedgedState \<lparr> currentTetromino := liftedT \<rparr>) :: error + State)"
    unfolding rot_def by code_simp
  with res off wedged_reachable show ?thesis by simp
qed

section \<open>Hard drop in a run\<close>

text \<open>
  Claim C8 bounds the number of translations of a hard drop by the height of the grid. As
  stated it fails, in a state of a run: the T piece lifted to row -4 by a wall kick and
  moved clear of the full column comes to rest at row 17, after 21 translations, one more
  than the grid has rows.
\<close>

theorem drop_exceeds_grid_height_counterexample:
  "reachable 0 liftedState
   \<and> shape (currentTetromino liftedState) = [[c0, c0, c0], [c1, c1, c1], [c0, c1, c0]]
   \<and> y (currentTetromino liftedState) = Num (- 4)
   \<and> dropTetromino liftedState
       = Some (Inr (liftedState \<lparr> currentTetromino := (currentTetromino liftedState) \<lparr> y := Num 17 \<rparr> \<rparr>))
   \<and> int GRID_HEIGHT < 17 - (- 4)"
proof -
  have "shape (currentTetromino liftedState) = [[c0, c0, c0], [c1, c1, c1], [c0, c1, c0]]"
    by code_simp
  moreover have "y (currentTetromino liftedState) = Num (- 4)" by code_simp
  moreover have "dropTetromino liftedState
       = Some (Inr (liftedState \<lparr> currentTetromino := (currentTetromino liftedState) \<lparr> y := Num 17 \<rparr> \<rparr>))"
    by code_simp
  moreover have "int GRID_HEIGHT < 17 - (- 4)" by (simp add: GRID_HEIGHT_def)
  ultimately show ?thesis using lifted_reachable by blast
qed

text \<open>
  Claim C8, amended. For every state reachable from the initial state whose active piece
  has at least one occupied cell in its shape, \<open>dropTetromino\<close> returns (it neither throws
  nor runs on): the result is the state with the piece moved down from its row \<open>yi\<close> to
  the first row \<open>yf\<close> at which it is settled, every row from \<open>yi\<close> down to \<open>yf\<close> having let it
  pass. The piece starts at most five rows above the grid and comes to rest above the
  floor, so the number of translations, \<open>yf - yi\<close>, is at most \<open>GRID_HEIGHT + 4\<close>.
\<close>

theorem dropTetromino_reachable:
  assumes re: "reachable seed s"
    and occ: "\<exists>row\<in>set (shape (currentTetromino s)). Num 1 \<in> set row"
  shows "\<exists>yi yf. y (currentTetromino s) = Num yi
     \<and> dropTetromino s
         = Some (Inr (s \<lparr> currentTetromino := (currentTetromino s) \<lparr> y := Num yf \<rparr> \<rparr>))
     \<and> isSettled ((currentTetromino s) \<lparr> y := Num yf \<rparr>) (grid s) = Inr True
     \<and> (\<forall>y'. yi \<le> y' \<and> y' < yf \<longrightarrow>
           isSettled ((currentTetromino s) \<lparr> y := Num y' \<rparr>) (grid s) = Inr False)
     \<and> - 5 \<le> yi \<and> yi \<le> yf \<and> yf < int GRID_HEIGHT \<and> yf - yi \<le> int GRID_HEIGHT + 4"
proof -
  let ?t = "currentTetromino s"
  from reachable_wf [OF re] have wf: "wellFormed s" .
  then obtain xi yi where a: "x ?t = Num xi" "y ?t = Num yi" and lo: "- 5 \<le> yi"
    by (auto simp: wellFormed_def)
  from wf have tall: "GRID_HEIGHT \<le> length (grid s)" and lg: "legal ?t (grid s)"
    by (auto simp: wellFormed_def)
  from lg a have "\<not> isOutOfBounds (Num xi) (Num yi) (shape ?t)" by (simp add: legal_def)
  with below_floor_out_of_bounds [OF occ, of yi xi] have hi: "yi < int GRID_HEIGHT"
    by fastforce
  from drop_descends [OF occ tall a] obtain yf where
    d: "dropOneStepRecursive s = Some (Inr (s \<lparr> currentTetromino := ?t \<lparr> y := Num yf \<rparr> \<rparr>))"
    and st: "isSettled (?t \<lparr> y := Num yf \<rparr>) (grid s) = Inr True"
    and fr: "\<forall>y'. yi \<le> y' \<and> y' < yf \<longrightarrow> isSettled (?t \<lparr> y := Num y' \<rparr>) (grid s) = Inr False"
    and bd: "yi \<le> yf" "yf \<le> max yi (int GRID_HEIGHT - 1)"
    by blast
  from bd hi have top: "yf < int GRID_HEIGHT" by simp
  with lo have "yf - yi \<le> int GRID_HEIGHT + 4" by simp
  with a d st fr lo bd(1) top show ?thesis unfolding dropTetromino_def by blast
qed

text \<open>The amended claim at the initial state for the seed 0: the I piece goes down from
  row -2 to row 18, where it is settled, and it is not settled at row 17.\<close>

theorem dropTetromino_reachable_witness:
  "reachable 0 seedZeroState
   \<and> dropTetromino seedZeroState
       = Some (Inr (seedZeroState \<lparr> currentTetromino := pieceI \<lparr> y := Num 18 \<rparr> \<rparr>))
   \<and> isSettled (pieceI \<lparr> y := Num 18 \<rparr>) (grid seedZeroState) = Inr True
   \<and> isSettled (pieceI \<lparr> y := Num 17 \<rparr>) (grid seedZeroState) = Inr False"
proof -
  have re: "reachable 0 seedZeroState" by (rule reachable_init [OF seedZero_initial])
  have occ: "\<exists>row\<in>set (shape (currentTetromino seedZeroState)). Num 1 \<in> set row"
    by (simp add: seedZeroState_def stateWith_def pieceI_def)
  have cur: "currentTetromino seedZeroState = pieceI"
    by (simp add: seedZeroState_def stateWith_def)
  from dropTetromino_reachable [OF re occ] obtain yi yf where
    py: "y pieceI = Num yi"
    and d: "dropTetromino seedZeroState
          = Some (Inr (seedZeroState \<lparr> currentTetromino := pieceI \<lparr> y := Num yf \<rparr> \<rparr>))"
    and st: "isSettled (pieceI \<lparr> y := Num yf \<rparr>) (grid seedZeroState) = Inr True"
    and fr: "\<forall>y'. yi \<le> y' \<and> y' < yf \<longrightarrow>
               isSettled (pieceI \<lparr> y := Num y' \<rparr>) (grid seedZeroState) = Inr False"
    unfolding cur by blast
  have yi: "yi = - 2" using py by (simp add: pieceI_def)
  have "dropTetromino seedZeroState
          = Some (Inr (seedZeroState \<lparr> currentTetromino := pieceI \<lparr> y := Num 18 \<rparr> \<rparr>))"
    by code_simp
  with d have "seedZeroState \<lparr> currentTetromino := pieceI \<lparr> y := Num yf \<rparr> \<rparr>
               = seedZeroState \<lparr> currentTetromino := pieceI \<lparr> y := Num 18 \<rparr> \<rparr>" by simp
  from arg_cong [OF this, of "\<lambda>st. y (currentTetromino st)"] have yf: "yf = 18" by simp
  from fr yi yf have "isSettled (pieceI \<lparr> y := Num 17 \<rparr>) (grid seedZeroState) = Inr False"
    by simp
  with re d st yf show ?thesis by simp
qed

section \<open>The draw of the tick\<close>

text \<open>
  Claim C6 says that a tick on a settled piece, the game not ended, returns a state with
  the piece merged, the rows cleared, the scores updated, the next piece promoted and a
  new next piece drawn from \<open>rng\<close>. The random numbers of the tick come from \<open>scale\<close>, whose
  comment in util.ts promises a number below 1 and which returns 1 or more on a hash of
  \<open>m - 1\<close> or more, as it does at the seed 1.946027761. With that number the tick on the
  I piece lying on the floor, a state of the run for the seed 0, throws in the draw and
  returns no state; so does the reducer on that tick, and on a hard drop in the initial
  state with that number.
\<close>

theorem tick_draw_throws:
  "reachable 0 restingIState
   \<and> isSettled (currentTetromino restingIState) (grid restingIState) = Inr True
   \<and> isGameEnd restingIState = Inr False
   \<and> 1 \<le> scale (hash badSeed)
   \<and> tick restingIState (scale (hash badSeed)) = Inl TypeError
   \<and> handleInput seedZeroState restingIState (TickRng (scale (hash badSeed))) = Some (Inl TypeError)
   \<and> handleInput seedZeroState seedZeroState (DropRng (scale (hash badSeed))) = Some (Inl TypeError)"
proof -
  have "isSettled (currentTetromino restingIState) (grid restingIState) = Inr True" by code_simp
  moreover have "isGameEnd restingIState = Inr False" by code_simp
  moreover have "1 \<le> scale (hash badSeed)" by code_simp
  moreover have "tick restingIState (scale (hash badSeed)) = Inl TypeError" by code_simp
  moreover have "handleInput seedZeroState restingIState (TickRng (scale (hash badSeed)))
                   = Some (Inl TypeError)" by code_simp
  moreover have "handleInput seedZeroState seedZeroState (DropRng (scale (hash badSeed)))
                   = Some (Inl TypeError)" by code_simp
  ultimately show ?thesis using restingI_reachable by blast
qed

end
